theory Spec2Isabelle
  imports Complex_Main "HOL-Library.Char_ord" "HOL-Library.List_Lexorder"
begin

chapter \<open>VeilScore: the inference-to-proof pipeline\<close>

text \<open>
  A shallow embedding of the Python sources \<^verbatim>\<open>zkml/train_model.py\<close>,
  \<^verbatim>\<open>zkml/data_processing.py\<close>, \<^verbatim>\<open>zkml/explainability.py\<close>,
  \<^verbatim>\<open>zkml/ezkl_pipeline.py\<close> and \<^verbatim>\<open>zkml/api/main.py\<close>.

  Conventions of the embedding.
  \<^item> Python and numpy floats are modelled by \<^typ>\<open>real\<close>, and the not-a-number value is
    written out where the source can produce or receive it. In the scorer, whose result
    depends on it, every float operation rounds its exact result to the nearest double
    (\<open>fl64\<close> below); elsewhere arithmetic is exact.
  \<^item> A raised exception is the \<open>Inl\<close> branch of a sum; the exception classes are the
    constructors of \<open>py_error\<close>.
  \<^item> Library objects (the LightGBM model, the SHAP explainer, the \<^verbatim>\<open>ezkl\<close> executable,
    the response validation of the web framework) are parameters: records of functions that
    stand for what the library returns.
\<close>

section \<open>Model of the program\<close>

datatype py_error =
    KeyError | AttributeError | TypeError | ValueError
  | FileNotFoundError | TimeoutExpired | CalledProcessError | JSONDecodeError
  | ValidationError | NonFinite

subsection \<open>Scorer (\<^verbatim>\<open>train_model.credit_score_from_proba\<close>)\<close>

text \<open>
  Rounding to the nearest integer, a tie going to the even neighbour: the rounding of
  IEEE 754 arithmetic and of Python's \<^verbatim>\<open>round\<close>.
\<close>

definition round_half_even :: "real \<Rightarrow> int" where
  "round_half_even y =
     (let f = \<lfloor>y\<rfloor>; d = y - of_int f
      in if d < 1/2 then f else if 1/2 < d then f + 1 else if even f then f else f + 1)"

text \<open>
  A Python \<^verbatim>\<open>float\<close> and a \<^verbatim>\<open>numpy.float64\<close> are IEEE 754 doubles, and \<^verbatim>\<open>+\<close>, \<^verbatim>\<open>-\<close>,
  \<^verbatim>\<open>*\<close> and the conversion of an \<^verbatim>\<open>int\<close> return the double nearest to the exact result,
  a tie going to the even significand. A nonzero \<open>x\<close> lies in the binade
  \<open>2^e \<le> |x| < 2^(e+1)\<close> with \<open>e = binade x\<close>, where the doubles are the multiples of
  \<open>2^(e-52)\<close> (a significand of 53 bits); \<open>fl64 x\<close> is the nearest of them.
  The exponent is not bounded here. With the default bounds this changes no score: a
  product that overflows to an infinity and a product of huge magnitude are clamped to the
  same bound, and a product in the subnormal range leaves 850 as it is, however it is
  rounded. The not-a-number value is not a value of the type.
\<close>

definition binade :: "real \<Rightarrow> int" where
  "binade x = \<lfloor>log 2 \<bar>x\<bar>\<rfloor>"

definition fl64 :: "real \<Rightarrow> real" where
  "fl64 x =
     (if x = 0 then 0
      else of_int (round_half_even (x / 2 powi (binade x - 52))) * 2 powi (binade x - 52))"

text \<open>Python's \<^verbatim>\<open>int(x)\<close> on a float truncates toward zero.\<close>

definition py_int :: "real \<Rightarrow> int" where
  "py_int x = (if 0 \<le> x then \<lfloor>x\<rfloor> else \<lceil>x\<rceil>)"

text \<open>\<^verbatim>\<open>np.clip(a, a_min, a_max)\<close> is \<^verbatim>\<open>minimum(maximum(a, a_min), a_max)\<close>.\<close>

definition np_clip :: "real \<Rightarrow> real \<Rightarrow> real \<Rightarrow> real" where
  "np_clip a a_min a_max = min (max a a_min) a_max"

text \<open>
  \<^verbatim>\<open>score = max_score - (proba * (max_score - min_score))\<close>
  \<^verbatim>\<open>return int(np.clip(score, min_score, max_score))\<close>
  \<^verbatim>\<open>proba\<close> is a double (the handler passes an element of the \<^verbatim>\<open>float64\<close> array that
  \<^verbatim>\<open>model.predict\<close> returns). The difference \<^verbatim>\<open>max_score - min_score\<close> is taken on
  Python's unbounded integers; the product and the outer difference are float operations,
  each converting its \<^verbatim>\<open>int\<close> operand to a double and rounding its result; \<^verbatim>\<open>np.clip\<close>
  compares doubles and \<^verbatim>\<open>int\<close> truncates. The callers use the defaults
  \<open>min_score = 300\<close>, \<open>max_score = 850\<close>; bounds too large to be converted to a
  double, for which Python raises \<^verbatim>\<open>OverflowError\<close>, are outside the model.
\<close>

definition credit_score_from_proba :: "real \<Rightarrow> int \<Rightarrow> int \<Rightarrow> int" where
  "credit_score_from_proba proba min_score max_score =
     (let score = fl64 (fl64 (of_int max_score)
                        - fl64 (proba * fl64 (of_int (max_score - min_score))))
      in py_int (np_clip score (fl64 (of_int min_score)) (fl64 (of_int max_score))))"

text \<open>
  The mapping as the specification words it:
  \<open>creditScore = round(clamp(850 - probability * 550, 300, 850))\<close>, on the exact value
  and rounding to the nearest integer. It is compared with
  \<^const>\<open>credit_score_from_proba\<close> below.
\<close>

definition credit_score_spec :: "real \<Rightarrow> int" where
  "credit_score_spec p = round (max 300 (min 850 (850 - p * 550)))"

subsection \<open>Feature encoder (\<^verbatim>\<open>data_processing.encode_features\<close>)\<close>

text \<open>
  A pandas column is either of a numeric dtype (\<^verbatim>\<open>float64\<close> or \<^verbatim>\<open>int64\<close>, the two dtypes
  the source's test \<^verbatim>\<open>df[col].dtype in [np.number, 'float64', 'int64']\<close> accepts), with
  \<open>None\<close> for a missing value (NaN), or of any other dtype, its values given by their
  \<^verbatim>\<open>str(...)\<close>. A data frame maps column names to columns of one common length.
\<close>

datatype column = NumCol "real option list" | ObjCol "string list"

type_synonym dataframe = "string \<rightharpoonup> column"

text \<open>The values of the encoded frame \<^verbatim>\<open>df_encoded\<close>.\<close>

datatype cell = Flt real | NaN | IntC int | Str string

type_synonym encoded = "string \<rightharpoonup> cell list"

text \<open>
  The source keeps everything it fits in one dictionary \<^verbatim>\<open>encoders\<close> keyed by strings:
  \<^verbatim>\<open>encoders[col]\<close> is a \<^verbatim>\<open>LabelEncoder\<close> (its sorted \<^verbatim>\<open>classes_\<close>),
  \<^verbatim>\<open>encoders[f'{col}_median']\<close> a float (possibly NaN), and \<^verbatim>\<open>encoders['scaler']\<close> a
  \<^verbatim>\<open>StandardScaler\<close> (per numeric column its mean and scale, or \<open>None\<close> when they are NaN).
\<close>

datatype enc_val =
    LabelEncoder "string list"
  | Median "real option"
  | StandardScaler "(real \<times> real) option list"

type_synonym encoders = "string \<rightharpoonup> enc_val"

text \<open>Truth value of a dictionary entry in \<^verbatim>\<open>if le:\<close> and \<^verbatim>\<open>if scaler:\<close>: an estimator
  object is true, a float is true unless it is zero (NaN is true).\<close>

fun truthy :: "enc_val \<Rightarrow> bool" where
  "truthy (LabelEncoder _) = True"
| "truthy (StandardScaler _) = True"
| "truthy (Median m) = (m \<noteq> Some 0)"

text \<open>A \<^verbatim>\<open>for\<close> loop whose body may raise: the first exception ends it.\<close>

fun for_each :: "('a \<Rightarrow> 's \<Rightarrow> py_error + 's) \<Rightarrow> 'a list \<Rightarrow> 's \<Rightarrow> py_error + 's" where
  "for_each body [] s = Inr s"
| "for_each body (x # xs) s =
     (case body x s of Inl e \<Rightarrow> Inl e | Inr s' \<Rightarrow> for_each body xs s')"

definition raw_cells :: "column \<Rightarrow> cell list" where
  "raw_cells c =
     (case c of
        NumCol xs \<Rightarrow> map (\<lambda>x. case x of None \<Rightarrow> NaN | Some r \<Rightarrow> Flt r) xs
      | ObjCol ss \<Rightarrow> map Str ss)"

definition is_numeric :: "dataframe \<Rightarrow> string \<Rightarrow> bool" where
  "is_numeric df col = (case df col of Some (NumCol _) \<Rightarrow> True | _ \<Rightarrow> False)"

text \<open>\<^verbatim>\<open>LabelEncoder\<close>: \<^verbatim>\<open>classes_\<close> are the sorted distinct values, a value's code is its
  position among them.\<close>

definition label_classes :: "string list \<Rightarrow> string list" where
  "label_classes ss = sort (remdups ss)"

definition label_code :: "string list \<Rightarrow> string \<Rightarrow> int" where
  "label_code classes x = int (length (takeWhile (\<lambda>y. y \<noteq> x) classes))"

text \<open>
  The body of \<^verbatim>\<open>for col in categorical_cols\<close>, when fitting:
  \<^verbatim>\<open>le = LabelEncoder(); df_encoded[col] = le.fit_transform(...); encoders[col] = le\<close>.
\<close>

definition fit_categorical ::
  "dataframe \<Rightarrow> string \<Rightarrow> encoded \<times> encoders \<Rightarrow> py_error + encoded \<times> encoders" where
  "fit_categorical df col st =
     (case df col of
        Some (ObjCol ss) \<Rightarrow>
          (let classes = label_classes ss
           in Inr ((fst st)(col \<mapsto> map (\<lambda>x. IntC (label_code classes x)) ss),
                   (snd st)(col \<mapsto> LabelEncoder classes)))
      | _ \<Rightarrow> Inl KeyError)"

text \<open>
  The same body when transforming:
  \<^verbatim>\<open>le = encoders.get(col)\<close>
  \<^verbatim>\<open>if le:\<close>
  \<^verbatim>\<open>    df_encoded[col] = df[col].astype(str).fillna('Unknown')\<close>
  \<^verbatim>\<open>    df_encoded[col] = df_encoded[col].apply(\<close>
  \<^verbatim>\<open>        lambda x: le.transform([x])[0] if x in le.classes_ else -1)\<close>
  An entry that is not a \<^verbatim>\<open>LabelEncoder\<close> has no \<^verbatim>\<open>classes_\<close>: the lambda raises
  \<^verbatim>\<open>AttributeError\<close> on the first row.
\<close>

definition transform_categorical ::
  "dataframe \<Rightarrow> string \<Rightarrow> encoded \<times> encoders \<Rightarrow> py_error + encoded \<times> encoders" where
  "transform_categorical df col st =
     (case df col of
        Some (ObjCol ss) \<Rightarrow>
          (case snd st col of
             None \<Rightarrow> Inr st
           | Some le \<Rightarrow>
               if truthy le then
                 (case le of
                    LabelEncoder classes \<Rightarrow>
                      Inr ((fst st)(col \<mapsto>
                             map (\<lambda>x. if x \<in> set classes then IntC (label_code classes x)
                                      else IntC (- 1)) ss),
                           snd st)
                  | _ \<Rightarrow> if ss = [] then Inr ((fst st)(col \<mapsto> []), snd st)
                         else Inl AttributeError)
               else Inr st)
      | _ \<Rightarrow> Inl KeyError)"

text \<open>\<^verbatim>\<open>Series.median()\<close> skips NaN; it is NaN when no value is left.\<close>

definition cell_vals :: "cell list \<Rightarrow> real list" where
  "cell_vals cs = concat (map (\<lambda>c. case c of Flt r \<Rightarrow> [r] | _ \<Rightarrow> []) cs)"

definition median :: "cell list \<Rightarrow> real option" where
  "median cs =
     (let vs = sort (cell_vals cs); n = length vs
      in if n = 0 then None
         else if odd n then Some (vs ! (n div 2))
         else Some ((vs ! (n div 2 - 1) + vs ! (n div 2)) / 2))"

definition fillna :: "real option \<Rightarrow> cell list \<Rightarrow> cell list" where
  "fillna v cs =
     map (\<lambda>c. if c = NaN then (case v of None \<Rightarrow> NaN | Some r \<Rightarrow> Flt r) else c) cs"

text \<open>
  The body of \<^verbatim>\<open>for col in numeric_cols\<close>, fitting and transforming:
  \<^verbatim>\<open>median_val = df_encoded[col].median()\<close> and \<^verbatim>\<open>encoders[f'{col}_median'] = median_val\<close>,
  or \<^verbatim>\<open>median_val = encoders.get(f'{col}_median', 0)\<close>; then
  \<^verbatim>\<open>df_encoded[col] = df_encoded[col].fillna(median_val)\<close>. A fill value that is an
  estimator object is refused by pandas (\<^verbatim>\<open>TypeError\<close>).
\<close>

definition fit_numeric ::
  "string \<Rightarrow> encoded \<times> encoders \<Rightarrow> py_error + encoded \<times> encoders" where
  "fit_numeric col st =
     (case fst st col of
        Some cs \<Rightarrow>
          (let median_val = median cs
           in Inr ((fst st)(col \<mapsto> fillna median_val cs),
                   (snd st)(col @ ''_median'' \<mapsto> Median median_val)))
      | None \<Rightarrow> Inl KeyError)"

definition transform_numeric ::
  "string \<Rightarrow> encoded \<times> encoders \<Rightarrow> py_error + encoded \<times> encoders" where
  "transform_numeric col st =
     (case fst st col of
        Some cs \<Rightarrow>
          (case snd st (col @ ''_median'') of
             None \<Rightarrow> Inr ((fst st)(col \<mapsto> fillna (Some 0) cs), snd st)
           | Some (Median median_val) \<Rightarrow> Inr ((fst st)(col \<mapsto> fillna median_val cs), snd st)
           | Some _ \<Rightarrow> Inl TypeError)
      | None \<Rightarrow> Inl KeyError)"

text \<open>
  \<^verbatim>\<open>StandardScaler\<close>: per column the mean and the population standard deviation of the
  values that are not NaN, a zero deviation replaced by 1; both are NaN (\<open>None\<close>) for a
  column without values. \<^verbatim>\<open>transform\<close> maps \<open>x\<close> to \<open>(x - mean) / scale\<close>.
\<close>

definition scaler_fit_col :: "cell list \<Rightarrow> (real \<times> real) option" where
  "scaler_fit_col cs =
     (let vs = cell_vals cs; n = real (length vs)
      in if vs = [] then None
         else (let mean = sum_list vs / n;
                   var = sum_list (map (\<lambda>x. (x - mean)\<^sup>2) vs) / n;
                   scale = sqrt var
               in Some (mean, if scale = 0 then 1 else scale)))"

definition scaler_transform_col :: "(real \<times> real) option \<Rightarrow> cell list \<Rightarrow> cell list" where
  "scaler_transform_col p cs =
     map (\<lambda>c. case (p, c) of (Some (mean, scale), Flt x) \<Rightarrow> Flt ((x - mean) / scale)
                            | _ \<Rightarrow> NaN) cs"

text \<open>\<^verbatim>\<open>df_encoded[numeric_cols] = ...\<close>: the scaled columns replace the numeric ones.\<close>

fun assign_cols :: "string list \<Rightarrow> cell list list \<Rightarrow> encoded \<Rightarrow> encoded" where
  "assign_cols (c # cols) (v # vals) e = assign_cols cols vals (e(c \<mapsto> v))"
| "assign_cols _ _ e = e"

definition numeric_block :: "string list \<Rightarrow> encoded \<Rightarrow> cell list list" where
  "numeric_block numeric_cols e = map (\<lambda>c. case e c of Some cs \<Rightarrow> cs | None \<Rightarrow> []) numeric_cols"

text \<open>sklearn refuses an array with no column or no row (\<^verbatim>\<open>ValueError\<close>), and
  \<^verbatim>\<open>transform\<close> refuses an array whose number of columns differs from the fitted one.\<close>

definition empty_block :: "cell list list \<Rightarrow> bool" where
  "empty_block b = (b = [] \<or> hd b = [])"

definition fit_scaler ::
  "string list \<Rightarrow> encoded \<times> encoders \<Rightarrow> py_error + encoded \<times> encoders" where
  "fit_scaler numeric_cols st =
     (let block = numeric_block numeric_cols (fst st)
      in if empty_block block then Inl ValueError
         else (let params = map scaler_fit_col block
               in Inr (assign_cols numeric_cols (map2 scaler_transform_col params block) (fst st),
                       (snd st)(''scaler'' \<mapsto> StandardScaler params))))"

definition transform_scaler ::
  "string list \<Rightarrow> encoded \<times> encoders \<Rightarrow> py_error + encoded \<times> encoders" where
  "transform_scaler numeric_cols st =
     (case snd st ''scaler'' of
        None \<Rightarrow> Inr st
      | Some scaler \<Rightarrow>
          if truthy scaler then
            (case scaler of
               StandardScaler params \<Rightarrow>
                 (let block = numeric_block numeric_cols (fst st)
                  in if empty_block block \<or> length params \<noteq> length block then Inl ValueError
                     else Inr (assign_cols numeric_cols
                                 (map2 scaler_transform_col params block) (fst st), snd st))
             | LabelEncoder _ \<Rightarrow> Inl ValueError
             | Median _ \<Rightarrow> Inl AttributeError)
          else Inr st)"

text \<open>
  \<^verbatim>\<open>encode_features(df, feature_cols, fit, encoders)\<close>. \<^verbatim>\<open>df[feature_cols]\<close> raises
  \<^verbatim>\<open>KeyError\<close> for a column the frame lacks; \<^verbatim>\<open>encoders = None\<close> becomes the empty
  dictionary. The column names in \<open>feature_cols\<close> are taken to be distinct.
\<close>

definition encode_features ::
  "dataframe \<Rightarrow> string list \<Rightarrow> bool \<Rightarrow> encoders option \<Rightarrow> py_error + encoded \<times> encoders" where
  "encode_features df feature_cols fit encs =
     (if \<exists>c \<in> set feature_cols. df c = None then Inl KeyError
      else
        (let df_encoded = (\<lambda>c. if c \<in> set feature_cols then map_option raw_cells (df c) else None);
             encs0 = (case encs of None \<Rightarrow> Map.empty | Some e \<Rightarrow> e);
             numeric_cols = filter (is_numeric df) feature_cols;
             categorical_cols = filter (\<lambda>c. c \<notin> set numeric_cols) feature_cols
         in case for_each (if fit then fit_categorical df else transform_categorical df)
                   categorical_cols (df_encoded, encs0) of
              Inl e \<Rightarrow> Inl e
            | Inr st1 \<Rightarrow>
                (case for_each (if fit then fit_numeric else transform_numeric) numeric_cols st1 of
                   Inl e \<Rightarrow> Inl e
                 | Inr st2 \<Rightarrow>
                     (if fit then fit_scaler numeric_cols st2
                      else transform_scaler numeric_cols st2))))"

text \<open>Row \<open>i\<close> of an encoded frame, in the order of the feature list (\<^verbatim>\<open>X.values[i]\<close>).\<close>

definition row_of :: "encoded \<Rightarrow> string list \<Rightarrow> nat \<Rightarrow> cell list" where
  "row_of e feature_cols i = map (\<lambda>c. case e c of Some cs \<Rightarrow> cs ! i | None \<Rightarrow> NaN) feature_cols"

text \<open>The one-row frame holding row \<open>i\<close> of a frame, dtypes kept (\<^verbatim>\<open>df.iloc[[i]]\<close>).\<close>

definition iloc :: "dataframe \<Rightarrow> nat \<Rightarrow> dataframe" where
  "iloc df i = (\<lambda>c. case df c of
                      None \<Rightarrow> None
                    | Some (NumCol xs) \<Rightarrow> Some (NumCol [xs ! i])
                    | Some (ObjCol ss) \<Rightarrow> Some (ObjCol [ss ! i]))"

subsection \<open>Serve-time feature preparation (\<^verbatim>\<open>api/main.prepare_features\<close>)\<close>

text \<open>
  A request is \<^verbatim>\<open>feature_input.dict(exclude_none=True)\<close>: the fields that are present, a
  number or (for an extra field) a string. For each feature name the one-row frame holds
  the request's value, or \<^verbatim>\<open>0.0\<close> when the request has none:
  \<^verbatim>\<open>if feat in input_dict: feature_dict[feat] = [input_dict[feat]]\<close>
  \<^verbatim>\<open>else: feature_dict[feat] = [0.0]   # Fill missing with median/default\<close>
  The frame is then encoded with \<^verbatim>\<open>encode_features(df, feature_names, fit=False,
  encoders=encoders)\<close>.
\<close>

datatype inval = NumV real | StrV string

type_synonym request = "string \<rightharpoonup> inval"

definition request_frame :: "string list \<Rightarrow> request \<Rightarrow> dataframe" where
  "request_frame names input_dict =
     (\<lambda>feat. if feat \<in> set names then
                Some (case input_dict feat of
                        Some (NumV r) \<Rightarrow> NumCol [Some r]
                      | Some (StrV s) \<Rightarrow> ObjCol [s]
                      | None \<Rightarrow> NumCol [Some 0])
              else None)"

definition prepare_features ::
  "string list \<Rightarrow> encoders option \<Rightarrow> request \<Rightarrow> py_error + encoded" where
  "prepare_features names encs input_dict =
     (case encode_features (request_frame names input_dict) names False encs of
        Inl e \<Rightarrow> Inl e
      | Inr (df_encoded, _) \<Rightarrow> Inr df_encoded)"

subsection \<open>Explainer (\<^verbatim>\<open>explainability.explain_prediction\<close>)\<close>

text \<open>
  The trained model as the explainer uses it: \<open>predict\<close> is the probability of the row
  (\<^verbatim>\<open>model.predict(X)[0]\<close>, or \<^verbatim>\<open>predict_proba(X)[0][1]\<close> for an sklearn-style model),
  \<open>shap_values\<close> the outcome of \<^verbatim>\<open>shap.TreeExplainer(model).shap_values(X)\<close> for the row
  (one value per feature, or the exception it raised), \<open>feature_importance\<close> the model's
  importances (\<^verbatim>\<open>feature_importances_\<close> or \<^verbatim>\<open>feature_importance(importance_type='gain')\<close>).
\<close>

record ml_model =
  predict :: "cell list \<Rightarrow> py_error + real"
  shap_values :: "cell list \<Rightarrow> py_error + real list"
  feature_importance :: "real list"

record impact_entry =
  feature :: string
  impact :: real
  abs_impact :: real

text \<open>
  The fallback \<^verbatim>\<open>shap_values = importance / importance.sum() * (proba - 0.5)\<close>. When the
  importances sum to zero numpy yields NaN or infinities instead of raising; the embedding
  has no such values and stops there with \<open>NonFinite\<close>.
\<close>

definition fallback_shap :: "real list \<Rightarrow> real \<Rightarrow> py_error + real list" where
  "fallback_shap importance proba =
     (if sum_list importance = 0 then Inl NonFinite
      else Inr (map (\<lambda>w. w / sum_list importance * (proba - 0.5)) importance))"

text \<open>The \<^verbatim>\<open>try: ... except Exception\<close> that computes the per-feature values.\<close>

definition instance_shap :: "ml_model \<Rightarrow> cell list \<Rightarrow> real \<Rightarrow> py_error + real list" where
  "instance_shap m X_instance proba =
     (case shap_values m X_instance of
        Inr sv \<Rightarrow> Inr sv
      | Inl _ \<Rightarrow> fallback_shap (feature_importance m) proba)"

text \<open>
  \<^verbatim>\<open>impacts.sort(key=lambda x: x['abs_impact'], reverse=True)\<close> is a stable sort: entries
  with equal keys keep their order. \<^const>\<open>sort_key\<close> is a stable insertion sort; the
  descending order is the ascending order of the negated key.
\<close>

definition explain_prediction ::
  "ml_model \<Rightarrow> cell list \<Rightarrow> string list \<Rightarrow> py_error + real \<times> impact_entry list" where
  "explain_prediction m X_instance names =
     (case predict m X_instance of
        Inl e \<Rightarrow> Inl e
      | Inr proba \<Rightarrow>
          (case instance_shap m X_instance proba of
             Inl e \<Rightarrow> Inl e
           | Inr sv \<Rightarrow>
               (let impacts = map (\<lambda>(f, shap_val).
                                    \<lparr>feature = f, impact = shap_val, abs_impact = \<bar>shap_val\<bar>\<rparr>)
                                  (zip names sv);
                    top_impacts = take 3 (sort_key (\<lambda>x. - abs_impact x) impacts)
                in Inr (proba, top_impacts))))"

text \<open>
  The handler's formatting of the explanations:
  \<^verbatim>\<open>{"feature": imp["feature"], "impact": round(imp["impact"], 4),\<close>
  \<^verbatim>\<open> "direction": "increases" if imp["impact"] > 0 else "decreases"}\<close>.
  Python's \<^verbatim>\<open>round(x, 4)\<close> rounds to four decimals, a tie to the even neighbour.
\<close>

definition py_round4 :: "real \<Rightarrow> real" where
  "py_round4 x = of_int (round_half_even (x * 10000)) / 10000"

record explanation =
  e_feature :: string
  e_impact :: real
  e_direction :: string

definition format_explanations :: "impact_entry list \<Rightarrow> explanation list" where
  "format_explanations top_impacts =
     map (\<lambda>imp. \<lparr>e_feature = feature imp, e_impact = py_round4 (impact imp),
                 e_direction = (if impact imp > 0 then ''increases'' else ''decreases'')\<rparr>)
         top_impacts"

subsection \<open>Proof pipeline (\<^verbatim>\<open>ezkl_pipeline.generate_proof\<close>)\<close>

text \<open>
  A path is the list of its components; \<^verbatim>\<open>p.parent\<close> drops the last one and
  \<^verbatim>\<open>p / name\<close> appends one. A file either holds JSON or something \<^verbatim>\<open>json.load\<close> rejects.
\<close>

type_synonym path = "string list"

datatype json =
    JNull | JBool bool | JNum real | JNaN | JStr string
  | JArr "json list" | JObj "(string \<times> json) list"

datatype file_content = JsonFile json | OtherFile

type_synonym filesystem = "path \<rightharpoonup> file_content"

text \<open>
  One \<^verbatim>\<open>subprocess.run(cmd, check=True, timeout=...)\<close>: the executable is missing
  (\<^verbatim>\<open>FileNotFoundError\<close>), it runs out of time (\<^verbatim>\<open>TimeoutExpired\<close>), or it exits with a
  return code (nonzero: \<^verbatim>\<open>CalledProcessError\<close>); a process that ran leaves a file system.
  The external \<^verbatim>\<open>ezkl\<close> tool is a black box: any function from the command line and the
  file system to such an outcome.
\<close>

datatype proc = NotInstalled | TimedOut filesystem | Exited int filesystem

type_synonym tool = "string list \<Rightarrow> filesystem \<Rightarrow> proc"

text \<open>The world the pipeline acts on: the files, which paths can be opened for writing,
  and the log of the command lines handed to \<^verbatim>\<open>subprocess.run\<close>.\<close>

record world =
  files :: filesystem
  can_write :: "path \<Rightarrow> bool"
  calls :: "string list list"

definition path_str :: "path \<Rightarrow> string" where
  "path_str p = concat (map (\<lambda>c. CHR ''/'' # c) p)"

definition witness_cmd :: "path \<Rightarrow> path \<Rightarrow> path \<Rightarrow> path \<Rightarrow> string list" where
  "witness_cmd input_path compiled_path settings_path witness_path =
     [''ezkl'', ''gen-witness'',
      ''--data'', path_str input_path,
      ''--compiled-circuit'', path_str compiled_path,
      ''--settings-path'', path_str settings_path,
      ''--witness'', path_str witness_path]"

definition prove_cmd :: "path \<Rightarrow> path \<Rightarrow> path \<Rightarrow> path \<Rightarrow> path \<Rightarrow> string list" where
  "prove_cmd witness_path compiled_path pk_path settings_path proof_path =
     [''ezkl'', ''prove'',
      ''--witness'', path_str witness_path,
      ''--compiled-circuit'', path_str compiled_path,
      ''--pk-path'', path_str pk_path,
      ''--settings-path'', path_str settings_path,
      ''--proof-path'', path_str proof_path]"

text \<open>\<^verbatim>\<open>subprocess.run\<close>: the call is logged, then the tool decides.\<close>

definition run :: "tool \<Rightarrow> string list \<Rightarrow> world \<Rightarrow> (py_error + unit) \<times> world" where
  "run ezkl cmd w =
     (let w' = w\<lparr>calls := calls w @ [cmd]\<rparr>
      in case ezkl cmd (files w) of
           NotInstalled \<Rightarrow> (Inl FileNotFoundError, w')
         | TimedOut fs \<Rightarrow> (Inl TimeoutExpired, w'\<lparr>files := fs\<rparr>)
         | Exited rc fs \<Rightarrow>
             (if rc = 0 then (Inr (), w'\<lparr>files := fs\<rparr>)
              else (Inl CalledProcessError, w'\<lparr>files := fs\<rparr>)))"

text \<open>
  \<^verbatim>\<open>generate_proof(input_data, compiled_path, settings_path, pk_path, witness_path,
  proof_path)\<close>: write \<^verbatim>\<open>input.json\<close> beside the witness, run \<^verbatim>\<open>gen-witness\<close>, run
  \<^verbatim>\<open>prove\<close>, read the proof file. No path is tested for existence before a stage runs.
\<close>

definition generate_proof ::
  "tool \<Rightarrow> json list \<Rightarrow> path \<Rightarrow> path \<Rightarrow> path \<Rightarrow> path \<Rightarrow> path \<Rightarrow> world
     \<Rightarrow> (py_error + json) \<times> world" where
  "generate_proof ezkl input_data compiled_path settings_path pk_path witness_path proof_path w =
     (let input_path = butlast witness_path @ [''input.json''];
          input_dict = JObj [(''input_data'', JArr [JArr input_data])]
      in if \<not> can_write w input_path then (Inl FileNotFoundError, w)
         else
           (let w1 = w\<lparr>files := (files w)(input_path \<mapsto> JsonFile input_dict)\<rparr>
            in case run ezkl (witness_cmd input_path compiled_path settings_path witness_path) w1 of
                 (Inl e, w2) \<Rightarrow> (Inl e, w2)
               | (Inr _, w2) \<Rightarrow>
                   (case run ezkl (prove_cmd witness_path compiled_path pk_path settings_path
                                     proof_path) w2 of
                      (Inl e, w3) \<Rightarrow> (Inl e, w3)
                    | (Inr _, w3) \<Rightarrow>
                        (case files w3 proof_path of
                           None \<Rightarrow> (Inl FileNotFoundError, w3)
                         | Some OtherFile \<Rightarrow> (Inl JSONDecodeError, w3)
                         | Some (JsonFile proof_data) \<Rightarrow> (Inr proof_data, w3)))))"

subsection \<open>The \<^verbatim>\<open>/prove\<close> handler (\<^verbatim>\<open>api/main.prove_credit_score\<close>)\<close>

text \<open>
  What the handler takes from its libraries: how the response model validates a value given
  for its \<^verbatim>\<open>Optional[str]\<close> field \<^verbatim>\<open>proof_hex\<close> (\<open>None\<close>: a validation error),
  \<^verbatim>\<open>json.dumps(v).encode().hex()\<close>, and numpy's conversion of a string to a float
  (\<open>None\<close>: \<^verbatim>\<open>ValueError\<close>).
\<close>

record libs =
  pydantic_str :: "json \<Rightarrow> string option"
  dumps_hex :: "json \<Rightarrow> string"
  float_of_str :: "string \<Rightarrow> real option"

text \<open>The module's globals, set once by \<^verbatim>\<open>load_models\<close>; \<open>None\<close> is Python's \<^verbatim>\<open>None\<close>.\<close>

record server =
  model :: "ml_model option"
  feature_names :: "string list option"
  encoders :: "encoders option"
  MODELS_DIR :: path

record response =
  score :: int
  default_probability :: real
  explanations :: "explanation list"
  proof_hex :: "string option"
  proof_available :: bool

datatype http_error = HTTPException nat

text \<open>\<^verbatim>\<open>input_data = X.values[0].astype(np.float32)\<close>.\<close>

definition astype_float32 :: "libs \<Rightarrow> cell list \<Rightarrow> py_error + json list" where
  "astype_float32 L row =
     (if \<exists>c \<in> set row. (case c of Str s \<Rightarrow> float_of_str L s = None | _ \<Rightarrow> False)
      then Inl ValueError
      else Inr (map (\<lambda>c. case c of
                           Flt r \<Rightarrow> JNum r
                         | NaN \<Rightarrow> JNaN
                         | IntC i \<Rightarrow> JNum (of_int i)
                         | Str s \<Rightarrow> (case float_of_str L s of Some r \<Rightarrow> JNum r | None \<Rightarrow> JNaN))
                    row))"

text \<open>A JSON object read by \<^verbatim>\<open>json.load\<close> keeps the last value of a repeated key.\<close>

definition dict_get :: "(string \<times> json) list \<Rightarrow> string \<Rightarrow> json option" where
  "dict_get kvs k = map_of (rev kvs) k"

text \<open>
  \<^verbatim>\<open>if isinstance(proof_data, dict):\<close>
  \<^verbatim>\<open>    proof_hex = proof_data.get("proof", {}).get("proof", None)\<close>
  \<^verbatim>\<open>    if proof_hex is None:\<close>
  \<^verbatim>\<open>        proof_hex = json.dumps(proof_data).encode().hex()\<close>
  The result is the new value of \<^verbatim>\<open>proof_hex\<close>, or the \<^verbatim>\<open>AttributeError\<close> of calling
  \<^verbatim>\<open>.get\<close> on a value that is not a dictionary; \<^verbatim>\<open>proof_hex\<close> is assigned only by a
  statement that completes.
\<close>

definition extract_proof_hex :: "libs \<Rightarrow> json \<Rightarrow> py_error + json option" where
  "extract_proof_hex L proof_data =
     (case proof_data of
        JObj kvs \<Rightarrow>
          (case dict_get kvs ''proof'' of
             None \<Rightarrow> Inr (Some (JStr (dumps_hex L proof_data)))
           | Some (JObj inner) \<Rightarrow>
               (case dict_get inner ''proof'' of
                  None \<Rightarrow> Inr (Some (JStr (dumps_hex L proof_data)))
                | Some JNull \<Rightarrow> Inr (Some (JStr (dumps_hex L proof_data)))
                | Some v \<Rightarrow> Inr (Some v))
           | Some _ \<Rightarrow> Inl AttributeError)
      | _ \<Rightarrow> Inr None)"

text \<open>
  The inner \<^verbatim>\<open>try: ... except Exception\<close> of the handler. It starts from
  \<^verbatim>\<open>proof_hex = None\<close>, \<^verbatim>\<open>proof_available = False\<close>, runs the pipeline only if the compiled
  circuit, the settings and the proving key all exist, and swallows every exception.
  The witness and proof paths are \<^verbatim>\<open>EZKL_DIR / "witness.json"\<close> and
  \<^verbatim>\<open>EZKL_DIR / "proof.json"\<close>.
\<close>

definition prove_step ::
  "libs \<Rightarrow> tool \<Rightarrow> path \<Rightarrow> cell list \<Rightarrow> world \<Rightarrow> (json option \<times> bool) \<times> world" where
  "prove_step L ezkl EZKL_DIR row w =
     (let compiled_path = EZKL_DIR @ [''compiled.ezkl''];
          settings_path = EZKL_DIR @ [''settings.json''];
          pk_path = EZKL_DIR @ [''pk.key'']
      in if list_all (\<lambda>p. files w p \<noteq> None) [compiled_path, settings_path, pk_path] then
           (let witness_path = EZKL_DIR @ [''witness.json''];
                proof_path = EZKL_DIR @ [''proof.json'']
            in case astype_float32 L row of
                 Inl e \<Rightarrow> ((None, False), w)
               | Inr input_data \<Rightarrow>
                   (case generate_proof ezkl input_data compiled_path settings_path pk_path
                           witness_path proof_path w of
                      (Inl e, w') \<Rightarrow> ((None, False), w')
                    | (Inr proof_data, w') \<Rightarrow>
                        (case extract_proof_hex L proof_data of
                           Inl e \<Rightarrow> ((None, False), w')
                         | Inr hex \<Rightarrow> ((hex, True), w'))))
         else ((None, False), w))"

text \<open>
  The handler: 503 while the model or the feature names are not loaded; any exception of
  the outer \<^verbatim>\<open>try\<close> (feature preparation, prediction, explanation, building the
  response) becomes a 500; otherwise the response.
\<close>

definition prove_credit_score ::
  "libs \<Rightarrow> tool \<Rightarrow> server \<Rightarrow> request \<Rightarrow> world \<Rightarrow> (http_error + response) \<times> world" where
  "prove_credit_score L ezkl srv feature_input w =
     (case (model srv, feature_names srv) of
        (Some m, Some names) \<Rightarrow>
          (case prepare_features names (encoders srv) feature_input of
             Inl e \<Rightarrow> (Inl (HTTPException 500), w)
           | Inr X \<Rightarrow>
               (let row = row_of X names 0
                in case predict m row of
                     Inl e \<Rightarrow> (Inl (HTTPException 500), w)
                   | Inr proba \<Rightarrow>
                       (case explain_prediction m row names of
                          Inl e \<Rightarrow> (Inl (HTTPException 500), w)
                        | Inr (_, top_impacts) \<Rightarrow>
                            (case prove_step L ezkl (MODELS_DIR srv @ [''ezkl'']) row w of
                               ((hex, available), w') \<Rightarrow>
                                 (let r = \<lparr>score = credit_score_from_proba proba 300 850,
                                           default_probability = py_round4 proba,
                                           explanations = format_explanations top_impacts,
                                           proof_hex = None,
                                           proof_available = available\<rparr>
                                  in case hex of
                                       None \<Rightarrow> (Inr r, w')
                                     | Some v \<Rightarrow>
                                         (case pydantic_str L v of
                                            None \<Rightarrow> (Inl (HTTPException 500), w')
                                          | Some s \<Rightarrow> (Inr (r\<lparr>proof_hex := Some s\<rparr>), w')))))))
      | _ \<Rightarrow> (Inl (HTTPException 503), w))"

subsection \<open>Concrete inputs for the examples\<close>

text \<open>A loaded server with three features and no encoders, a request, a world in which
  the three setup artifacts exist, and a tool whose every run exits with status 1.\<close>

definition ex_names :: "string list" where
  "ex_names = [''loan_amnt'', ''dti'', ''annual_inc'']"

definition ex_model :: ml_model where
  "ex_model = \<lparr>predict = (\<lambda>_. Inr (1/5)),
               shap_values = (\<lambda>_. Inr [1/10, - 3/10, 1/20]),
               feature_importance = [1, 2, 3]\<rparr>"

definition ex_server :: server where
  "ex_server = \<lparr>model = Some ex_model, feature_names = Some ex_names, encoders = None,
                MODELS_DIR = [''models'']\<rparr>"

definition ex_libs :: libs where
  "ex_libs = \<lparr>pydantic_str = (\<lambda>v. case v of JStr s \<Rightarrow> Some s | _ \<Rightarrow> None),
              dumps_hex = (\<lambda>_. ''7b7d''),
              float_of_str = (\<lambda>_. None)\<rparr>"

definition ex_world :: world where
  "ex_world = \<lparr>files = [[''models'', ''ezkl'', ''compiled.ezkl''] \<mapsto> OtherFile,
                        [''models'', ''ezkl'', ''settings.json''] \<mapsto> JsonFile (JObj []),
                        [''models'', ''ezkl'', ''pk.key''] \<mapsto> OtherFile],
               can_write = (\<lambda>_. True),
               calls = []\<rparr>"

definition ex_request :: request where
  "ex_request = [''loan_amnt'' \<mapsto> NumV 15000, ''dti'' \<mapsto> NumV 18]"


text \<open>A second request, a world without any file, a tool that produces the witness and a
  proof, a tool that exits with status 0 without writing anything, and a tool whose proof
  file holds a JSON array.\<close>

definition ex_request2 :: request where
  "ex_request2 = [''loan_amnt'' \<mapsto> NumV 5000, ''dti'' \<mapsto> NumV 45]"

definition ex_empty_world :: world where
  "ex_empty_world = \<lparr>files = Map.empty, can_write = (\<lambda>_. True), calls = []\<rparr>"

definition ex_ezkl :: tool where
  "ex_ezkl cmd fs =
     (if take 2 cmd = [''ezkl'', ''gen-witness'']
      then Exited 0 (fs([''models'', ''ezkl'', ''witness.json''] \<mapsto> JsonFile JNull))
      else Exited 0 (fs([''models'', ''ezkl'', ''proof.json''] \<mapsto>
                        JsonFile (JObj [(''proof'', JObj [(''proof'', JStr ''0xabc'')])]))))"



text \<open>Models for the explainer: one with a contribution below the rounding step, one with
  two features, and one whose SHAP computation raises, with two features of zero
  importance.\<close>

definition ex_model_tiny :: ml_model where
  "ex_model_tiny = \<lparr>predict = (\<lambda>_. Inr (1/5)),
                    shap_values = (\<lambda>_. Inr [1/2, - 1/5, 3/100000]),
                    feature_importance = [1, 2, 3]\<rparr>"

definition ex_model_two :: ml_model where
  "ex_model_two = \<lparr>predict = (\<lambda>_. Inr (1/5)),
                   shap_values = (\<lambda>_. Inr [1/10, - 3/10]),
                   feature_importance = [1, 2]\<rparr>"


text \<open>Frames and encoder dictionaries for the encoder: a frame with a categorical and a
  numeric column, a fitted label encoder and a one-row frame with a value it has not seen,
  the state fitted for one numeric feature (median 10000, mean 10000, scale 5000), and a
  frame whose categorical column is named \<^verbatim>\<open>scaler\<close>.\<close>

definition ex_frame :: dataframe where
  "ex_frame = [''grade'' \<mapsto> ObjCol [''B'', ''A'', ''B''],
               ''x'' \<mapsto> NumCol [Some 1, None, Some 3]]"

definition ex_label_encoders :: encoders where
  "ex_label_encoders = [''grade'' \<mapsto> LabelEncoder [''A'', ''B'']]"

definition ex_unseen_frame :: dataframe where
  "ex_unseen_frame = [''grade'' \<mapsto> ObjCol [''C'']]"

definition ex_amount_encoders :: encoders where
  "ex_amount_encoders = [''loan_amnt_median'' \<mapsto> Median (Some 10000),
                         ''scaler'' \<mapsto> StandardScaler [Some (10000, 5000)]]"

definition ex_clash_frame :: dataframe where
  "ex_clash_frame = [''scaler'' \<mapsto> ObjCol [''B'', ''A''],
                     ''x'' \<mapsto> NumCol [Some 0, Some 4]]"

section \<open>Verified properties\<close>

subsection \<open>Scorer\<close>

text \<open>The rounding is monotone and odd, and it fixes the integers.\<close>

lemma round_half_even_int [simp]: "round_half_even (of_int z) = z"
  by (simp add: round_half_even_def)

lemma round_half_even_bounds:
  "of_int \<lfloor>y\<rfloor> \<le> (of_int (round_half_even y) :: real)"
  "round_half_even y \<le> \<lfloor>y\<rfloor> + 1"
  by (simp_all add: round_half_even_def Let_def)

lemma round_half_even_ge: "of_int n \<le> y \<Longrightarrow> n \<le> round_half_even y"
proof -
  assume "of_int n \<le> y"
  then have "n \<le> \<lfloor>y\<rfloor>" by (simp add: le_floor_iff)
  moreover have "\<lfloor>y\<rfloor> \<le> round_half_even y"
    by (simp add: round_half_even_def Let_def)
  ultimately show ?thesis by simp
qed

lemma round_half_even_le: "y \<le> of_int n \<Longrightarrow> round_half_even y \<le> n"
proof (cases "y = of_int \<lfloor>y\<rfloor>")
  case True
  assume "y \<le> of_int n"
  with True have "\<lfloor>y\<rfloor> \<le> n" by (metis of_int_le_iff)
  moreover from True have "round_half_even y = \<lfloor>y\<rfloor>"
    by (metis round_half_even_int)
  ultimately show ?thesis by simp
next
  case False
  assume "y \<le> of_int n"
  with False have "\<lfloor>y\<rfloor> < n"
    by (metis floor_less_iff less_eq_real_def of_int_floor_le order.strict_trans1 floor_of_int)
  with round_half_even_bounds(2) [of y] show ?thesis by simp
qed

lemma round_half_even_mono: "a \<le> b \<Longrightarrow> round_half_even a \<le> round_half_even b"
proof (cases "\<lfloor>a\<rfloor> = \<lfloor>b\<rfloor>")
  case True
  assume "a \<le> b"
  with True show ?thesis
    by (auto simp: round_half_even_def Let_def)
next
  case False
  assume "a \<le> b"
  with False have "\<lfloor>a\<rfloor> + 1 \<le> \<lfloor>b\<rfloor>"
    using floor_mono [of a b] by simp
  with round_half_even_bounds(2) [of a] have "round_half_even a \<le> \<lfloor>b\<rfloor>" by simp
  moreover have "\<lfloor>b\<rfloor> \<le> round_half_even b" by (simp add: round_half_even_def Let_def)
  ultimately show ?thesis by simp
qed

lemma round_half_even_minus: "round_half_even (- y) = - round_half_even y"
proof (cases "y = of_int \<lfloor>y\<rfloor>")
  case True
  then obtain z where "y = of_int z" ..
  then show ?thesis by (simp flip: of_int_minus)
next
  case False
  then have c: "\<lceil>y\<rceil> = \<lfloor>y\<rfloor> + 1"
    by (metis ceiling_altdef)
  have f: "\<lfloor>- y\<rfloor> = - \<lfloor>y\<rfloor> - 1"
    using c by (simp add: ceiling_def)
  show ?thesis
    unfolding round_half_even_def Let_def f
    by (auto simp: algebra_simps)
qed

lemma powr_powi: "2 powr real_of_int k = (2::real) powi k"
  by (simp add: powr_real_of_int')

lemma powr_powi_Suc: "2 powr (real_of_int k + 1) = (2::real) powi (k + 1)"
  using powr_powi [of "k + 1"] by simp

lemma binade_bounds:
  assumes "x \<noteq> 0"
  shows "2 powi binade x \<le> \<bar>x\<bar>" and "\<bar>x\<bar> < 2 powi (binade x + 1)"
proof -
  from assms have pos: "0 < \<bar>x\<bar>" by simp
  have "2 powr of_int (binade x) \<le> \<bar>x\<bar>"
    unfolding binade_def using pos by (simp add: powr_le_iff)
  then show "2 powi binade x \<le> \<bar>x\<bar>" by (simp add: powr_real_of_int')
  have "\<bar>x\<bar> < 2 powr of_int (binade x + 1)"
    unfolding binade_def using pos by (simp add: less_powr_iff)
  then show "\<bar>x\<bar> < 2 powi (binade x + 1)" by (simp add: powr_powi_Suc)
qed

lemma binade_eqI:
  assumes "2 powi e \<le> \<bar>x\<bar>" and "\<bar>x\<bar> < 2 powi (e + 1)"
  shows "binade x = e"
proof -
  from assms(1) have pos: "0 < \<bar>x\<bar>"
    by (meson zero_less_numeral zero_less_power_int order.strict_trans2)
  have "2 powr of_int e \<le> \<bar>x\<bar>" "\<bar>x\<bar> < 2 powr of_int (e + 1)"
    using assms by (simp_all add: powr_powi powr_powi_Suc)
  then have "of_int e \<le> log 2 \<bar>x\<bar>" "log 2 \<bar>x\<bar> < of_int (e + 1)"
    using pos by (simp_all add: le_log_iff log_less_iff)
  then show ?thesis unfolding binade_def by (simp add: floor_eq_iff)
qed

lemma binade_minus [simp]: "binade (- x) = binade x"
  by (simp add: binade_def)

lemma fl64_zero [simp]: "fl64 0 = 0"
  by (simp add: fl64_def)

lemma fl64_minus: "fl64 (- x) = - fl64 x"
  by (simp add: fl64_def round_half_even_minus)

text \<open>A number with a significand below \<open>2^53\<close> is a double, and rounding keeps it.\<close>

lemma fl64_exact:
  assumes "x = of_int m * 2 powi k" and "\<bar>m\<bar> < 2 ^ 53"
  shows "fl64 x = x"
proof (cases "x = 0")
  case True
  then show ?thesis by simp
next
  case False
  let ?e = "binade x"
  from False assms(1) have m0: "m \<noteq> 0" by auto
  have "2 powi ?e \<le> \<bar>x\<bar>" by (rule binade_bounds(1) [OF False])
  also have "\<bar>x\<bar> = of_int \<bar>m\<bar> * 2 powi k" by (simp add: assms(1) abs_mult)
  also have "\<dots> < 2 ^ 53 * 2 powi k"
  proof (rule mult_strict_right_mono)
    from assms(2) have "real_of_int \<bar>m\<bar> < real_of_int (2 ^ 53)" by (simp only: of_int_less_iff)
    then show "real_of_int \<bar>m\<bar> < 2 ^ 53" by simp
    show "0 < (2::real) powi k" by simp
  qed
  also have "\<dots> = 2 powi (53 + k)" by (simp add: power_int_add)
  finally have "(2::real) powi ?e < 2 powi (53 + k)" .
  then have "?e < 53 + k"
    using power_int_increasing [of "53 + k" ?e "2::real"] by (cases "?e < 53 + k") simp_all
  then have nn: "0 \<le> k - (?e - 52)" by simp
  have "x / 2 powi (?e - 52) = of_int m * 2 powi (k - (?e - 52))"
    by (simp add: assms(1) power_int_diff)
  also have "\<dots> = of_int m * 2 ^ nat (k - (?e - 52))"
    using nn by (simp add: power_int_def)
  also have "\<dots> = of_int (m * 2 ^ nat (k - (?e - 52)))" by simp
  finally have q: "x / 2 powi (?e - 52) = of_int (m * 2 ^ nat (k - (?e - 52)))" .
  have "fl64 x = x / 2 powi (?e - 52) * 2 powi (?e - 52)"
    unfolding fl64_def using False by (simp only: q round_half_even_int if_False)
  then show ?thesis by simp
qed

lemma binade_mono:
  assumes "0 < x" and "x \<le> y"
  shows "binade x \<le> binade y"
  unfolding binade_def using assms by (intro floor_mono) (simp add: log_le_cancel_iff)

lemma fl64_nonneg: "0 \<le> x \<Longrightarrow> 0 \<le> fl64 x"
  by (auto simp: fl64_def intro!: mult_nonneg_nonneg round_half_even_ge [of 0, simplified])

lemma fl64_mono_pos:
  assumes "0 < x" and "x \<le> y"
  shows "fl64 x \<le> fl64 y"
proof -
  let ?ex = "binade x" and ?ey = "binade y"
  from assms have x0: "x \<noteq> 0" and y0: "y \<noteq> 0" and ypos: "0 < y" by simp_all
  have le: "?ex \<le> ?ey" by (rule binade_mono [OF assms])
  show ?thesis
  proof (cases "?ex = ?ey")
    case True
    have "x / 2 powi (?ex - 52) \<le> y / 2 powi (?ex - 52)"
      using assms(2) by (simp add: divide_right_mono)
    then have "round_half_even (x / 2 powi (?ex - 52)) \<le> round_half_even (y / 2 powi (?ex - 52))"
      by (rule round_half_even_mono)
    then have "real_of_int (round_half_even (x / 2 powi (?ex - 52))) * 2 powi (?ex - 52)
             \<le> real_of_int (round_half_even (y / 2 powi (?ex - 52))) * 2 powi (?ex - 52)"
      by (intro mult_right_mono) simp_all
    then show ?thesis using x0 y0 True by (simp add: fl64_def)
  next
    case False
    with le have lt: "?ex + 1 \<le> ?ey" by simp
    have "x / 2 powi (?ex - 52) \<le> 2 powi (?ex + 1) / 2 powi (?ex - 52)"
      using binade_bounds(2) [OF x0] assms(1) by (intro divide_right_mono) simp_all
    also have "\<dots> = real_of_int (2 ^ 53)"
      using power_int_diff [of "2::real" "?ex + 1" "?ex - 52"] by simp
    finally have "round_half_even (x / 2 powi (?ex - 52)) \<le> 2 ^ 53"
      by (rule round_half_even_le)
    then have "real_of_int (round_half_even (x / 2 powi (?ex - 52))) \<le> real_of_int (2 ^ 53)"
      by (simp only: of_int_le_iff)
    then have "fl64 x \<le> 2 ^ 53 * 2 powi (?ex - 52)"
      using x0 by (simp add: fl64_def mult_right_mono)
    also have "\<dots> = 2 powi (?ex + 1)"
      using power_int_add [of "2::real" 53 "?ex - 52"] by (simp add: add.commute)
    also have "\<dots> \<le> 2 powi ?ey"
      using lt by (simp add: power_int_increasing)
    also have "\<dots> = of_int (2 ^ 52) * 2 powi (?ey - 52)"
      using power_int_add [of "2::real" 52 "?ey - 52"] by simp
    also have "\<dots> \<le> fl64 y"
    proof -
      have "real_of_int (2 ^ 52) = 2 powi ?ey / 2 powi (?ey - 52)"
        using power_int_diff [of "2::real" ?ey "?ey - 52"] by simp
      also have "\<dots> \<le> y / 2 powi (?ey - 52)"
        using binade_bounds(1) [OF y0] ypos by (intro divide_right_mono) simp_all
      finally have "2 ^ 52 \<le> round_half_even (y / 2 powi (?ey - 52))"
        by (rule round_half_even_ge)
      then have "real_of_int (2 ^ 52) \<le> real_of_int (round_half_even (y / 2 powi (?ey - 52)))"
        by (simp only: of_int_le_iff)
      then show ?thesis using y0 by (simp add: fl64_def mult_right_mono)
    qed
    finally show ?thesis .
  qed
qed

lemma fl64_mono: "x \<le> y \<Longrightarrow> fl64 x \<le> fl64 y"
proof -
  assume le: "x \<le> y"
  consider "0 < x" | "x \<le> 0" "0 \<le> y" | "y < 0" by linarith
  then show ?thesis
  proof cases
    case 1
    then show ?thesis using le by (rule fl64_mono_pos)
  next
    case 2
    from 2(1) have "0 \<le> fl64 (- x)" by (intro fl64_nonneg) simp
    then have "fl64 x \<le> 0" by (simp add: fl64_minus)
    also have "0 \<le> fl64 y" using 2(2) by (rule fl64_nonneg)
    finally show ?thesis .
  next
    case 3
    then have "0 < - y" and "- y \<le> - x" using le by simp_all
    then have "fl64 (- y) \<le> fl64 (- x)" by (rule fl64_mono_pos)
    then show ?thesis by (simp add: fl64_minus)
  qed
qed


lemma fl64_of_int: "\<bar>n\<bar> < 2 ^ 53 \<Longrightarrow> fl64 (of_int n) = of_int n"
  by (rule fl64_exact [of _ n 0]) simp_all

lemma fl64_dyadic: "\<bar>m\<bar> < 2 ^ 53 \<Longrightarrow> fl64 (of_int m / 2 ^ j) = of_int m / 2 ^ j"
  by (rule fl64_exact [of _ m "- int j"]) (simp_all add: power_int_minus field_simps)

text \<open>Rounding a number whose binade is known.\<close>

lemma fl64_in_binade:
  assumes "2 powi e \<le> \<bar>x\<bar>" and "\<bar>x\<bar> < 2 powi (e + 1)"
  shows "fl64 x = of_int (round_half_even (x / 2 powi (e - 52))) * 2 powi (e - 52)"
proof -
  from assms have "binade x = e" by (rule binade_eqI)
  moreover from assms(1) have "x \<noteq> 0"
    by (metis abs_zero not_le zero_less_numeral zero_less_power_int)
  ultimately show ?thesis by (simp add: fl64_def)
qed

lemma py_int_nonneg: "0 \<le> x \<Longrightarrow> py_int x = \<lfloor>x\<rfloor>"
  by (simp add: py_int_def)

lemma fl64_consts: "fl64 850 = 850" "fl64 550 = 550" "fl64 300 = 300"
  using fl64_of_int [of 850] fl64_of_int [of 550] fl64_of_int [of 300] by simp_all

lemma credit_score_floor:
  "credit_score_from_proba p 300 850 = \<lfloor>max 300 (min 850 (fl64 (850 - fl64 (p * 550))))\<rfloor>"
proof -
  let ?s = "fl64 (850 - fl64 (p * 550))"
  have clip: "np_clip ?s 300 850 = max 300 (min 850 ?s)"
    by (simp add: np_clip_def min_def max_def)
  have "0 \<le> max 300 (min 850 ?s)"
    by (simp add: max_def)
  then show ?thesis
    by (simp add: credit_score_from_proba_def fl64_consts clip py_int_nonneg)
qed

lemma credit_score_antimono:
  assumes "p \<le> q"
  shows "credit_score_from_proba q 300 850 \<le> credit_score_from_proba p 300 850"
proof -
  from assms have "p * 550 \<le> q * 550" by simp
  then have "fl64 (p * 550) \<le> fl64 (q * 550)" by (rule fl64_mono)
  then have "850 - fl64 (q * 550) \<le> 850 - fl64 (p * 550)" by simp
  then have "fl64 (850 - fl64 (q * 550)) \<le> fl64 (850 - fl64 (p * 550))" by (rule fl64_mono)
  then have "max 300 (min 850 (fl64 (850 - fl64 (q * 550))))
           \<le> max 300 (min 850 (fl64 (850 - fl64 (p * 550))))"
    by (simp add: min_def max_def)
  then show ?thesis
    unfolding credit_score_floor by (rule floor_mono)
qed

text \<open>The score brackets the exact clamped value: rounding moves it by less than one.\<close>

lemma credit_score_lower:
  "\<lfloor>max 300 (min 850 (850 - p * 550))\<rfloor> \<le> credit_score_from_proba p 300 850"
proof -
  let ?v = "850 - p * 550" and ?s = "fl64 (850 - fl64 (p * 550))"
  define n where "n = \<lfloor>max 300 (min 850 ?v)\<rfloor>"
  have n: "of_int n \<le> max 300 (min 850 ?v)" "300 \<le> n" "n \<le> 850"
    unfolding n_def by (simp_all add: le_floor_iff floor_le_iff)
  have "of_int n \<le> max 300 (min 850 ?s)"
  proof (cases "of_int n \<le> ?v")
    case True
    then have "p * 550 \<le> of_int (850 - n)" by simp
    then have "fl64 (p * 550) \<le> fl64 (of_int (850 - n))" by (rule fl64_mono)
    also have "\<dots> = of_int (850 - n)" using n(2,3) by (intro fl64_of_int) simp
    finally have "of_int n \<le> 850 - fl64 (p * 550)" by simp
    then have "fl64 (of_int n) \<le> ?s" by (rule fl64_mono)
    moreover have "fl64 (of_int n) = of_int n" using n(2,3) by (intro fl64_of_int) simp
    ultimately have "of_int n \<le> ?s" by simp
    with n(3) show ?thesis by (simp add: min_def max_def)
  next
    case False
    with n(1) have "real_of_int n \<le> 300" by (simp add: min_def max_def split: if_splits)
    then show ?thesis by (simp add: max_def)
  qed
  then show ?thesis
    unfolding credit_score_floor n_def [symmetric] by (simp add: le_floor_iff)
qed

lemma credit_score_upper:
  "credit_score_from_proba p 300 850 \<le> \<lceil>max 300 (min 850 (850 - p * 550))\<rceil>"
proof -
  let ?v = "850 - p * 550" and ?s = "fl64 (850 - fl64 (p * 550))"
  define m where "m = \<lceil>max 300 (min 850 ?v)\<rceil>"
  have m: "max 300 (min 850 ?v) \<le> of_int m" "300 \<le> m" "m \<le> 850"
    unfolding m_def by (simp_all add: le_ceiling_iff ceiling_le_iff)
  have "max 300 (min 850 ?s) \<le> of_int m"
  proof (cases "?v \<le> of_int m")
    case True
    then have "of_int (850 - m) \<le> p * 550" by simp
    then have "fl64 (of_int (850 - m)) \<le> fl64 (p * 550)" by (rule fl64_mono)
    moreover have "fl64 (of_int (850 - m)) = of_int (850 - m)"
      using m(2,3) by (intro fl64_of_int) simp
    ultimately have "850 - fl64 (p * 550) \<le> of_int m" by simp
    then have "?s \<le> fl64 (of_int m)" by (rule fl64_mono)
    moreover have "fl64 (of_int m) = of_int m" using m(2,3) by (intro fl64_of_int) simp
    ultimately have "?s \<le> of_int m" by simp
    with m(2) show ?thesis by (simp add: min_def max_def)
  next
    case False
    with m(1) have "850 \<le> real_of_int m" by (simp add: min_def max_def split: if_splits)
    with m(2) show ?thesis by (simp add: min_def max_def)
  qed
  then have "\<lfloor>max 300 (min 850 ?s)\<rfloor> \<le> m"
    by (simp add: floor_le_iff)
  then show ?thesis
    unfolding credit_score_floor m_def [symmetric] .
qed

text \<open>Scores of some doubles.\<close>

lemma fl64_halves:
  "fl64 (275 / 2) = 275 / 2" "fl64 (1425 / 2) = 1425 / 2"
  "fl64 (825 / 2) = 825 / 2" "fl64 (875 / 2) = 875 / 2"
     apply (rule fl64_exact [of _ 275 "- 1"]; simp)
    apply (rule fl64_exact [of _ 1425 "- 1"]; simp)
   apply (rule fl64_exact [of _ 825 "- 1"]; simp)
  apply (rule fl64_exact [of _ 875 "- 1"]; simp)
  done

lemma credit_score_quarter:
  "credit_score_from_proba (1/4) 300 850 = 712" "credit_score_from_proba (3/4) 300 850 = 437"
  by (simp_all add: credit_score_floor fl64_halves)


lemma fl64_4096:
  "fl64 (275 / 4096) = 275 / 4096" "fl64 (3481325 / 4096) = 3481325 / 4096"
   apply (rule fl64_exact [of _ 275 "- 12"]; simp)
  apply (rule fl64_exact [of _ 3481325 "- 12"]; simp)
  done

text \<open>
  The rounding of the float operations shows in the score. The double nearest to \<open>0.2\<close>
  is \<open>3602879701896397 / 2^54\<close>, a little above \<open>1/5\<close>: the exact value of
  \<open>850 - 550 p\<close> is below 740, but the product rounds to 110 and the score is 740.
  At \<open>p = 2^-60\<close> the exact value is below 850, the difference rounds to 850 and the
  score is 850.
\<close>

lemma credit_score_double_fifth:
  "credit_score_from_proba (3602879701896397 / 2 ^ 54) 300 850 = 740
   \<and> \<lfloor>max 300 (min 850 (850 - 3602879701896397 / 2 ^ 54 * 550 :: real))\<rfloor> = 739"
proof
  let ?x = "3602879701896397 / 2 ^ 54 * 550 :: real"
  have bin: "2 powi 6 \<le> \<bar>?x\<bar>" "\<bar>?x\<bar> < 2 powi (6 + 1)" by simp_all
  have r: "round_half_even (?x / 2 powi (6 - 52)) = 110 * 2 ^ 46"
    by (simp add: round_half_even_def Let_def)
  have "fl64 ?x = of_int (110 * 2 ^ 46) * 2 powi (6 - 52)"
    unfolding fl64_in_binade [OF bin] r ..
  also have "\<dots> = 110" by simp
  finally have a: "fl64 ?x = 110" .
  have b: "fl64 (850 - 110) = 740" using fl64_of_int [of 740] by simp
  show "credit_score_from_proba (3602879701896397 / 2 ^ 54) 300 850 = 740"
    unfolding credit_score_floor a b by simp
  show "\<lfloor>max 300 (min 850 (850 - ?x))\<rfloor> = 739" by simp
qed

lemma credit_score_tiny:
  "credit_score_from_proba (1 / 2 ^ 60) 300 850 = 850
   \<and> \<lfloor>max 300 (min 850 (850 - 1 / 2 ^ 60 * 550 :: real))\<rfloor> = 849"
proof
  let ?t = "1 / 2 ^ 60 * 550 :: real"
  have a: "fl64 ?t = ?t"
    by (rule fl64_exact [of _ 550 "- 60"]) simp_all
  let ?x = "850 - ?t"
  have bin: "2 powi 9 \<le> \<bar>?x\<bar>" "\<bar>?x\<bar> < 2 powi (9 + 1)" by simp_all
  have r: "round_half_even (?x / 2 powi (9 - 52)) = 850 * 2 ^ 43"
    by (simp add: round_half_even_def Let_def)
  have "fl64 ?x = of_int (850 * 2 ^ 43) * 2 powi (9 - 52)"
    unfolding fl64_in_binade [OF bin] r ..
  also have "\<dots> = 850" by simp
  finally have b: "fl64 ?x = 850" .
  show "credit_score_from_proba (1 / 2 ^ 60) 300 850 = 850"
    unfolding credit_score_floor a b by simp
  show "\<lfloor>max 300 (min 850 (850 - ?t))\<rfloor> = 849" by simp
qed

text \<open>
  Claim C2, as the code has it. For every probability \<open>p\<close> the score is the clamped value
  of \<open>850 - 550 p\<close>, computed in double arithmetic and truncated (not rounded) to an
  integer; it lies between the floor and the ceiling of the exact clamped value; the
  mapping is non-increasing in \<open>p\<close>, and exact at the boundaries: \<open>p = 0\<close> gives 850 and
  \<open>p = 1\<close> gives 300.
\<close>

theorem credit_score_from_proba_truncates:
  "credit_score_from_proba p 300 850 = \<lfloor>max 300 (min 850 (fl64 (850 - fl64 (p * 550))))\<rfloor>
   \<and> \<lfloor>max 300 (min 850 (850 - p * 550))\<rfloor> \<le> credit_score_from_proba p 300 850
   \<and> credit_score_from_proba p 300 850 \<le> \<lceil>max 300 (min 850 (850 - p * 550))\<rceil>
   \<and> (p \<le> q \<longrightarrow> credit_score_from_proba q 300 850 \<le> credit_score_from_proba p 300 850)
   \<and> credit_score_from_proba 0 300 850 = 850
   \<and> credit_score_from_proba 1 300 850 = 300"
proof (intro conjI impI)
  show "credit_score_from_proba p 300 850 = \<lfloor>max 300 (min 850 (fl64 (850 - fl64 (p * 550))))\<rfloor>"
    by (rule credit_score_floor)
  show "\<lfloor>max 300 (min 850 (850 - p * 550))\<rfloor> \<le> credit_score_from_proba p 300 850"
    by (rule credit_score_lower)
  show "credit_score_from_proba p 300 850 \<le> \<lceil>max 300 (min 850 (850 - p * 550))\<rceil>"
    by (rule credit_score_upper)
  show "credit_score_from_proba q 300 850 \<le> credit_score_from_proba p 300 850" if "p \<le> q"
    using that by (rule credit_score_antimono)
  show "credit_score_from_proba 0 300 850 = 850"
    by (simp add: credit_score_floor fl64_consts)
  show "credit_score_from_proba 1 300 850 = 300"
    by (simp add: credit_score_floor fl64_consts)
qed

theorem credit_score_from_proba_truncates_witness:
  "(1/4 :: real) \<le> 3/4
   \<and> credit_score_from_proba (1/4) 300 850 = 712
   \<and> credit_score_from_proba (3/4) 300 850 = 437
   \<and> credit_score_from_proba (3/4) 300 850 \<le> credit_score_from_proba (1/4) 300 850"
  using credit_score_from_proba_truncates [of "1/4" "3/4"]
  by (simp add: credit_score_quarter)

text \<open>
  The claim as stated (rounding) fails: at the double \<open>p = 2^-13\<close> every operation is
  exact and the clamped value is \<open>849.93...\<close>, which the code truncates to 849 and the
  specification rounds to 850.
\<close>

theorem credit_score_round_counterexample:
  "credit_score_from_proba (1/8192) 300 850 = 849 \<and> credit_score_spec (1/8192) = 850"
  by (simp add: credit_score_floor fl64_4096 credit_score_spec_def round_def)

subsection \<open>The handler and the proof pipeline\<close>


lemma prove_step_failure:
  assumes "files w (d @ [''compiled.ezkl'']) = None \<or> files w (d @ [''settings.json'']) = None
           \<or> files w (d @ [''pk.key'']) = None
           \<or> (\<exists>e. astype_float32 L row = Inl e)
           \<or> (\<exists>input_data e w'. astype_float32 L row = Inr input_data \<and>
                 generate_proof ezkl input_data (d @ [''compiled.ezkl'']) (d @ [''settings.json''])
                   (d @ [''pk.key'']) (d @ [''witness.json'']) (d @ [''proof.json'']) w = (Inl e, w'))"
  shows "fst (prove_step L ezkl d row w) = (None, False)"
  using assms
  by (auto simp: prove_step_def Let_def split: if_splits sum.splits prod.splits)

lemma run_calls:
  "calls (snd (run ezkl cmd w)) = calls w @ [cmd]"
  by (simp add: run_def Let_def split: proc.splits)

lemma run_ok_iff:
  "(\<exists>u. fst (run ezkl cmd w) = Inr u) \<longleftrightarrow> (\<exists>fs. ezkl cmd (files w) = Exited 0 fs)"
  by (auto simp: run_def Let_def split: proc.splits)

text \<open>The defining equations of the encoder, for evaluating it on concrete frames.\<close>

lemmas enc_defs = encode_features_def is_numeric_def fit_categorical_def fit_numeric_def fit_scaler_def
  transform_categorical_def transform_numeric_def transform_scaler_def
  label_classes_def label_code_def Let_def raw_cells_def median_def cell_vals_def fillna_def numeric_block_def empty_block_def scaler_fit_col_def scaler_transform_col_def

text \<open>The defining equations of the handler and of the examples, for evaluation.\<close>

lemmas handler_defs = prove_credit_score_def prepare_features_def request_frame_def
  explain_prediction_def instance_shap_def prove_step_def astype_float32_def
  generate_proof_def run_def extract_proof_hex_def dict_get_def row_of_def

lemmas ex_defs = ex_names_def ex_model_def ex_server_def ex_libs_def ex_world_def
  ex_request_def ex_request2_def ex_empty_world_def
















lemma generate_proof_calls:
  "\<exists>cs. calls (snd (generate_proof ezkl input_data cp sp pk wp pp w)) = calls w @ cs
     \<and> (cs = []
        \<or> cs = [witness_cmd (butlast wp @ [''input.json'']) cp sp wp]
        \<or> (cs = [witness_cmd (butlast wp @ [''input.json'']) cp sp wp, prove_cmd wp cp pk sp pp]
            \<and> (\<exists>fs. ezkl (witness_cmd (butlast wp @ [''input.json'']) cp sp wp)
                       ((files w)(butlast wp @ [''input.json''] \<mapsto>
                          JsonFile (JObj [(''input_data'', JArr [JArr input_data])])))
                     = Exited 0 fs)))"
  by (auto simp: generate_proof_def run_def Let_def split: proc.splits option.splits file_content.splits)

lemma prove_step_calls:
  "\<exists>cs. calls (snd (prove_step L ezkl d row w)) = calls w @ cs
     \<and> set cs \<subseteq> {witness_cmd (d @ [''input.json'']) (d @ [''compiled.ezkl''])
                      (d @ [''settings.json'']) (d @ [''witness.json'']),
                    prove_cmd (d @ [''witness.json'']) (d @ [''compiled.ezkl''])
                      (d @ [''pk.key'']) (d @ [''settings.json'']) (d @ [''proof.json''])}"
proof (cases "list_all (\<lambda>p. files w p \<noteq> None)
                [d @ [''compiled.ezkl''], d @ [''settings.json''], d @ [''pk.key'']]")
  case False
  then have "prove_step L ezkl d row w = ((None, False), w)"
    by (auto simp: prove_step_def Let_def)
  then show ?thesis by simp
next
  case gate: True
  show ?thesis
  proof (cases "astype_float32 L row")
    case (Inl e)
    with gate have "prove_step L ezkl d row w = ((None, False), w)"
      by (simp add: prove_step_def Let_def)
    then show ?thesis by simp
  next
    case (Inr input_data)
    let ?g = "generate_proof ezkl input_data (d @ [''compiled.ezkl'']) (d @ [''settings.json''])
                (d @ [''pk.key'']) (d @ [''witness.json'']) (d @ [''proof.json'']) w"
    from gate Inr have "snd (prove_step L ezkl d row w) = snd ?g"
      by (simp add: prove_step_def Let_def split: prod.splits sum.splits)
    moreover from generate_proof_calls [of ezkl input_data "d @ [''compiled.ezkl'']"
        "d @ [''settings.json'']" "d @ [''pk.key'']" "d @ [''witness.json'']"
        "d @ [''proof.json'']" w]
    obtain cs where "calls (snd ?g) = calls w @ cs"
      and "set cs \<subseteq> {witness_cmd (d @ [''input.json'']) (d @ [''compiled.ezkl''])
                      (d @ [''settings.json'']) (d @ [''witness.json'']),
                    prove_cmd (d @ [''witness.json'']) (d @ [''compiled.ezkl''])
                      (d @ [''pk.key'']) (d @ [''settings.json'']) (d @ [''proof.json''])}"
      by auto
    ultimately show ?thesis by auto
  qed
qed

lemma handler_world:
  "snd (prove_credit_score L ezkl srv feature_input w) = w
   \<or> (\<exists>row. snd (prove_credit_score L ezkl srv feature_input w)
             = snd (prove_step L ezkl (MODELS_DIR srv @ [''ezkl'']) row w))"
  by (auto simp: prove_credit_score_def Let_def split: option.splits sum.splits prod.splits)
     (metis snd_conv)+


text \<open>
  Claim C3, as the code has it. The witness, proof and input paths of the pipeline do not
  depend on the request: whatever the request, every command the handler runs is the
  \<^verbatim>\<open>gen-witness\<close> or the \<^verbatim>\<open>prove\<close> command on the fixed files \<^verbatim>\<open>input.json\<close>,
  \<^verbatim>\<open>witness.json\<close> and \<^verbatim>\<open>proof.json\<close> of the one directory \<^verbatim>\<open>EZKL_DIR\<close>.
\<close>

theorem artifact_paths_fixed:
  "\<exists>cs. calls (snd (prove_credit_score L ezkl srv feature_input w)) = calls w @ cs
     \<and> set cs \<subseteq>
         {witness_cmd (MODELS_DIR srv @ [''ezkl''] @ [''input.json''])
            (MODELS_DIR srv @ [''ezkl''] @ [''compiled.ezkl''])
            (MODELS_DIR srv @ [''ezkl''] @ [''settings.json''])
            (MODELS_DIR srv @ [''ezkl''] @ [''witness.json'']),
          prove_cmd (MODELS_DIR srv @ [''ezkl''] @ [''witness.json''])
            (MODELS_DIR srv @ [''ezkl''] @ [''compiled.ezkl''])
            (MODELS_DIR srv @ [''ezkl''] @ [''pk.key''])
            (MODELS_DIR srv @ [''ezkl''] @ [''settings.json''])
            (MODELS_DIR srv @ [''ezkl''] @ [''proof.json''])}"
proof -
  from handler_world [of L ezkl srv feature_input w]
  show ?thesis
  proof
    assume "snd (prove_credit_score L ezkl srv feature_input w) = w"
    then show ?thesis by simp
  next
    assume "\<exists>row. snd (prove_credit_score L ezkl srv feature_input w)
             = snd (prove_step L ezkl (MODELS_DIR srv @ [''ezkl'']) row w)"
    then obtain row where "snd (prove_credit_score L ezkl srv feature_input w)
             = snd (prove_step L ezkl (MODELS_DIR srv @ [''ezkl'']) row w)" ..
    with prove_step_calls [of L ezkl "MODELS_DIR srv @ [''ezkl'']" row w]
    show ?thesis by simp
  qed
qed


text \<open>
  The claim as stated (distinct paths for distinct requests) fails: two different requests
  run the very same commands on the same witness and proof files.
\<close>

theorem artifact_paths_shared_counterexample:
  "ex_request \<noteq> ex_request2
   \<and> calls (snd (prove_credit_score ex_libs ex_ezkl ex_server ex_request ex_world))
       = calls (snd (prove_credit_score ex_libs ex_ezkl ex_server ex_request2 ex_world))
   \<and> calls (snd (prove_credit_score ex_libs ex_ezkl ex_server ex_request ex_world))
       = [witness_cmd [''models'', ''ezkl'', ''input.json'']
            [''models'', ''ezkl'', ''compiled.ezkl''] [''models'', ''ezkl'', ''settings.json'']
            [''models'', ''ezkl'', ''witness.json''],
          prove_cmd [''models'', ''ezkl'', ''witness.json'']
            [''models'', ''ezkl'', ''compiled.ezkl''] [''models'', ''ezkl'', ''pk.key'']
            [''models'', ''ezkl'', ''settings.json''] [''models'', ''ezkl'', ''proof.json'']]"
proof (intro conjI)
  have "ex_request ''dti'' \<noteq> ex_request2 ''dti''"
    by (simp add: ex_request_def ex_request2_def)
  then show "ex_request \<noteq> ex_request2" by metis
  have c1: "calls (snd (prove_credit_score ex_libs ex_ezkl ex_server ex_request ex_world))
       = [witness_cmd [''models'', ''ezkl'', ''input.json'']
            [''models'', ''ezkl'', ''compiled.ezkl''] [''models'', ''ezkl'', ''settings.json'']
            [''models'', ''ezkl'', ''witness.json''],
          prove_cmd [''models'', ''ezkl'', ''witness.json'']
            [''models'', ''ezkl'', ''compiled.ezkl''] [''models'', ''ezkl'', ''pk.key'']
            [''models'', ''ezkl'', ''settings.json''] [''models'', ''ezkl'', ''proof.json'']]"
    by (simp add: handler_defs ex_defs enc_defs ex_ezkl_def witness_cmd_def prove_cmd_def)
  have c2: "calls (snd (prove_credit_score ex_libs ex_ezkl ex_server ex_request2 ex_world))
       = [witness_cmd [''models'', ''ezkl'', ''input.json'']
            [''models'', ''ezkl'', ''compiled.ezkl''] [''models'', ''ezkl'', ''settings.json'']
            [''models'', ''ezkl'', ''witness.json''],
          prove_cmd [''models'', ''ezkl'', ''witness.json'']
            [''models'', ''ezkl'', ''compiled.ezkl''] [''models'', ''ezkl'', ''pk.key'']
            [''models'', ''ezkl'', ''settings.json''] [''models'', ''ezkl'', ''proof.json'']]"
    by (simp add: handler_defs ex_defs enc_defs ex_ezkl_def witness_cmd_def prove_cmd_def)
  show "calls (snd (prove_credit_score ex_libs ex_ezkl ex_server ex_request ex_world))
       = calls (snd (prove_credit_score ex_libs ex_ezkl ex_server ex_request2 ex_world))"
    by (simp only: c1 c2)
  show "calls (snd (prove_credit_score ex_libs ex_ezkl ex_server ex_request ex_world))
       = [witness_cmd [''models'', ''ezkl'', ''input.json'']
            [''models'', ''ezkl'', ''compiled.ezkl''] [''models'', ''ezkl'', ''settings.json'']
            [''models'', ''ezkl'', ''witness.json''],
          prove_cmd [''models'', ''ezkl'', ''witness.json'']
            [''models'', ''ezkl'', ''compiled.ezkl''] [''models'', ''ezkl'', ''pk.key'']
            [''models'', ''ezkl'', ''settings.json''] [''models'', ''ezkl'', ''proof.json'']]"
    by (rule c1)
qed







subsection \<open>Explainer\<close>

lemma insort_key_map:
  "insort_key f (g x) (map g xs) = map g (insort_key (\<lambda>y. f (g y)) x xs)"
  by (induction xs) simp_all

lemma sort_key_map:
  "sort_key f (map g xs) = map g (sort_key (\<lambda>y. f (g y)) xs)"
  by (induction xs) (simp_all add: insort_key_map)

lemma zip_as_map_upt:
  "zip xs ys = map (\<lambda>i. (xs ! i, ys ! i)) [0..<min (length xs) (length ys)]"
  by (rule nth_equalityI) simp_all

text \<open>A list sorted by a key whose groups of equal keys are in increasing order is sorted
  by key first and value second.\<close>

lemma sorted_groups_lex:
  fixes ys :: "nat list" and f :: "nat \<Rightarrow> real"
  assumes "sorted (map f ys)"
    and "\<And>k. sorted_wrt (<) (filter (\<lambda>y. f y = k) ys)"
  shows "sorted_wrt (\<lambda>a b. f a < f b \<or> (f a = f b \<and> a < b)) ys"
  using assms
proof (induction ys)
  case Nil
  then show ?case by simp
next
  case (Cons a ys)
  have tail: "sorted_wrt (\<lambda>a b. f a < f b \<or> (f a = f b \<and> a < b)) ys"
  proof (rule Cons.IH)
    show "sorted (map f ys)" using Cons.prems(1) by simp
    show "sorted_wrt (<) (filter (\<lambda>y. f y = k) ys)" for k
      using Cons.prems(2) [of k] by (cases "f a = k") simp_all
  qed
  have head: "f a < f b \<or> (f a = f b \<and> a < b)" if "b \<in> set ys" for b
  proof (cases "f a = f b")
    case True
    from Cons.prems(2) [of "f a"] that True show ?thesis by auto
  next
    case False
    moreover from Cons.prems(1) that have "f a \<le> f b" by simp
    ultimately show ?thesis by simp
  qed
  from tail head show ?case by simp
qed

lemma stable_sort_upt_lex:
  fixes f :: "nat \<Rightarrow> real"
  shows "sorted_wrt (\<lambda>a b. f a < f b \<or> (f a = f b \<and> a < b)) (sort_key f [0..<n])"
proof (rule sorted_groups_lex)
  show "sorted (map f (sort_key f [0..<n]))" by (rule sorted_sort_key)
  show "sorted_wrt (<) (filter (\<lambda>y. f y = k) (sort_key f [0..<n]))" for k
    by (simp add: sort_key_stable sorted_wrt_filter)
qed

text \<open>The indices of the entries \<^const>\<open>explain_prediction\<close> returns.\<close>

lemma take_sorted_props:
  fixes R :: "nat \<Rightarrow> nat \<Rightarrow> bool"
  assumes "sorted_wrt R ys"
  shows "sorted_wrt R (take k ys)"
    and "\<forall>i \<in> set (take k ys). \<forall>j \<in> set (drop k ys). R i j"
proof -
  from assms have "sorted_wrt R (take k ys @ drop k ys)" by simp
  then show "sorted_wrt R (take k ys)"
    and "\<forall>i \<in> set (take k ys). \<forall>j \<in> set (drop k ys). R i j"
    unfolding sorted_wrt_append by blast+
qed

lemma explain_top_indices:
  fixes names :: "string list" and sv :: "real list"
  assumes "predict m X = Inr proba" and "instance_shap m X proba = Inr sv"
  defines "n \<equiv> min (length names) (length sv)"
  defines "idx \<equiv> take 3 (sort_key (\<lambda>i. - \<bar>sv ! i\<bar>) [0..<n])"
  shows "explain_prediction m X names =
           Inr (proba, map (\<lambda>i. \<lparr>feature = names ! i, impact = sv ! i,
                                  abs_impact = \<bar>sv ! i\<bar>\<rparr>) idx)"
    and "length idx = min 3 n"
    and "distinct idx"
    and "\<forall>i \<in> set idx. i < n"
    and "sorted_wrt (\<lambda>i j. \<bar>sv ! j\<bar> < \<bar>sv ! i\<bar> \<or> (\<bar>sv ! i\<bar> = \<bar>sv ! j\<bar> \<and> i < j)) idx"
    and "\<forall>i \<in> set idx. \<forall>k < n. k \<notin> set idx \<longrightarrow>
            \<bar>sv ! k\<bar> < \<bar>sv ! i\<bar> \<or> (\<bar>sv ! i\<bar> = \<bar>sv ! k\<bar> \<and> i < k)"
proof -
  let ?key = "\<lambda>i. - \<bar>sv ! i\<bar>"
  let ?ys = "sort_key ?key [0..<n]"
  let ?R = "\<lambda>i j. \<bar>sv ! j\<bar> < \<bar>sv ! i\<bar> \<or> (\<bar>sv ! i\<bar> = \<bar>sv ! j\<bar> \<and> i < j)"
  have impacts: "map (\<lambda>(f, shap_val). \<lparr>feature = f, impact = shap_val, abs_impact = \<bar>shap_val\<bar>\<rparr>)
                   (zip names sv)
               = map (\<lambda>i. \<lparr>feature = names ! i, impact = sv ! i, abs_impact = \<bar>sv ! i\<bar>\<rparr>) [0..<n]"
    by (simp add: zip_as_map_upt [of names sv] n_def)
  show "explain_prediction m X names =
           Inr (proba, map (\<lambda>i. \<lparr>feature = names ! i, impact = sv ! i,
                                  abs_impact = \<bar>sv ! i\<bar>\<rparr>) idx)"
    using assms(1,2)
    by (simp add: explain_prediction_def Let_def impacts sort_key_map take_map idx_def)
  show "length idx = min 3 n" by (simp add: idx_def)
  have dist: "distinct ?ys" by simp
  then show "distinct idx" unfolding idx_def by (rule distinct_take)
  have "set idx \<subseteq> set ?ys" unfolding idx_def by (rule set_take_subset)
  then show "\<forall>i \<in> set idx. i < n" by auto
  have "sorted_wrt (\<lambda>a b. ?key a < ?key b \<or> (?key a = ?key b \<and> a < b)) ?ys"
    by (rule stable_sort_upt_lex)
  then have lex: "sorted_wrt ?R ?ys"
    by (rule sorted_wrt_mono_rel [rotated]) auto
  from take_sorted_props(1) [OF lex] show "sorted_wrt ?R idx" by (simp add: idx_def)
  show "\<forall>i \<in> set idx. \<forall>k < n. k \<notin> set idx \<longrightarrow> ?R i k"
  proof (intro ballI allI impI)
    fix i k assume i: "i \<in> set idx" and k: "k < n" "k \<notin> set idx"
    from k(1) have "k \<in> set (take 3 ?ys @ drop 3 ?ys)" by simp
    with k(2) have "k \<in> set (drop 3 ?ys)" unfolding set_append idx_def by blast
    with take_sorted_props(2) [OF lex, of 3] i show "?R i k" by (simp add: idx_def)
  qed
qed


lemma format_explanations_map:
  "format_explanations (map (\<lambda>i. \<lparr>feature = f i, impact = v i, abs_impact = a i\<rparr>) idx)
   = map (\<lambda>i. \<lparr>e_feature = f i, e_impact = py_round4 (v i),
                 e_direction = (if 0 < v i then ''increases'' else ''decreases'')\<rparr>) idx"
  by (simp add: format_explanations_def)

text \<open>
  Claim C5, as the code has it. With \<open>n\<close> the number of features that have a contribution,
  \<^const>\<open>explain_prediction\<close> returns \<open>min 3 n\<close> attributions (exactly 3 when \<open>n \<ge> 3\<close>):
  distinct features, ordered by descending absolute contribution with ties in declaration
  order, and ranking before every feature left out. In the response each impact is the
  contribution rounded to four decimals, and the direction is \<open>increases\<close> exactly when
  the contribution before rounding is positive, \<open>decreases\<close> otherwise.
\<close>

theorem explain_returns_ranked_top:
  assumes "predict m X = Inr proba" and "instance_shap m X proba = Inr sv"
  shows "\<exists>idx.
      explain_prediction m X names =
        Inr (proba, map (\<lambda>i. \<lparr>feature = names ! i, impact = sv ! i,
                               abs_impact = \<bar>sv ! i\<bar>\<rparr>) idx)
    \<and> format_explanations (map (\<lambda>i. \<lparr>feature = names ! i, impact = sv ! i,
                                       abs_impact = \<bar>sv ! i\<bar>\<rparr>) idx)
        = map (\<lambda>i. \<lparr>e_feature = names ! i, e_impact = py_round4 (sv ! i),
                     e_direction = (if 0 < sv ! i then ''increases'' else ''decreases'')\<rparr>) idx
    \<and> length idx = min 3 (min (length names) (length sv))
    \<and> distinct idx
    \<and> (\<forall>i \<in> set idx. i < min (length names) (length sv))
    \<and> sorted_wrt (\<lambda>i j. \<bar>sv ! j\<bar> < \<bar>sv ! i\<bar> \<or> (\<bar>sv ! i\<bar> = \<bar>sv ! j\<bar> \<and> i < j)) idx
    \<and> (\<forall>i \<in> set idx. \<forall>k < min (length names) (length sv). k \<notin> set idx \<longrightarrow>
          \<bar>sv ! k\<bar> < \<bar>sv ! i\<bar> \<or> (\<bar>sv ! i\<bar> = \<bar>sv ! k\<bar> \<and> i < k))"
proof -
  define idx where
    "idx = take 3 (sort_key (\<lambda>i. - \<bar>sv ! i\<bar>) [0..<min (length names) (length sv)])"
  note top = explain_top_indices [OF assms, of names, folded idx_def]
  show ?thesis
  proof (intro exI [of _ idx] conjI)
    show "explain_prediction m X names =
        Inr (proba, map (\<lambda>i. \<lparr>feature = names ! i, impact = sv ! i,
                               abs_impact = \<bar>sv ! i\<bar>\<rparr>) idx)"
      by (rule top(1))
    show "format_explanations (map (\<lambda>i. \<lparr>feature = names ! i, impact = sv ! i,
                                       abs_impact = \<bar>sv ! i\<bar>\<rparr>) idx)
        = map (\<lambda>i. \<lparr>e_feature = names ! i, e_impact = py_round4 (sv ! i),
                     e_direction = (if 0 < sv ! i then ''increases'' else ''decreases'')\<rparr>) idx"
      by (rule format_explanations_map)
    show "length idx = min 3 (min (length names) (length sv))" by (rule top(2))
    show "distinct idx" by (rule top(3))
    show "\<forall>i \<in> set idx. i < min (length names) (length sv)" by (rule top(4))
    show "sorted_wrt (\<lambda>i j. \<bar>sv ! j\<bar> < \<bar>sv ! i\<bar> \<or> (\<bar>sv ! i\<bar> = \<bar>sv ! j\<bar> \<and> i < j)) idx"
      by (rule top(5))
    show "\<forall>i \<in> set idx. \<forall>k < min (length names) (length sv). k \<notin> set idx \<longrightarrow>
          \<bar>sv ! k\<bar> < \<bar>sv ! i\<bar> \<or> (\<bar>sv ! i\<bar> = \<bar>sv ! k\<bar> \<and> i < k)"
      by (rule top(6))
  qed
qed

theorem explain_returns_ranked_top_witness:
  "\<exists>top. explain_prediction ex_model [Flt 15000, Flt 18, Flt 0] ex_names = Inr (1 / 5, top)
       \<and> length top = 3 \<and> length (format_explanations top) = 3"
proof -
  have p: "predict ex_model [Flt 15000, Flt 18, Flt 0] = Inr (1 / 5)"
    by (simp add: ex_model_def)
  have s: "instance_shap ex_model [Flt 15000, Flt 18, Flt 0] (1 / 5) = Inr [1 / 10, - 3 / 10, 1 / 20]"
    by (simp add: instance_shap_def ex_model_def)
  from explain_returns_ranked_top [OF p s, of ex_names]
  obtain idx where
    "explain_prediction ex_model [Flt 15000, Flt 18, Flt 0] ex_names =
        Inr (1 / 5, map (\<lambda>i. \<lparr>feature = ex_names ! i, impact = [1 / 10, - 3 / 10, 1 / 20] ! i,
                               abs_impact = \<bar>[1 / 10, - 3 / 10, 1 / 20] ! i\<bar>\<rparr>) idx)"
    and "length idx = min 3 (min (length ex_names) (length [1 / 10, - 3 / 10, 1 / 20 :: real]))"
    by (elim exE conjE)
  then show ?thesis
    by (simp add: ex_names_def format_explanations_def)
qed

text \<open>
  The claim as stated fails twice. A positive contribution below \<open>0.00005\<close> is reported
  as impact \<open>0\<close> with direction \<open>increases\<close>; and a model with two features gets two
  attributions, not three.
\<close>

theorem explain_rounding_counterexample:
  "explain_prediction ex_model_tiny [Flt 15000, Flt 18, Flt 0] ex_names =
     Inr (1 / 5,
          [\<lparr>feature = ''loan_amnt'', impact = 1 / 2, abs_impact = 1 / 2\<rparr>,
           \<lparr>feature = ''dti'', impact = - (1 / 5), abs_impact = 1 / 5\<rparr>,
           \<lparr>feature = ''annual_inc'', impact = 3 / 100000, abs_impact = 3 / 100000\<rparr>])
   \<and> format_explanations
          [\<lparr>feature = ''loan_amnt'', impact = 1 / 2, abs_impact = 1 / 2\<rparr>,
           \<lparr>feature = ''dti'', impact = - (1 / 5), abs_impact = 1 / 5\<rparr>,
           \<lparr>feature = ''annual_inc'', impact = 3 / 100000, abs_impact = 3 / 100000\<rparr>]
       = [\<lparr>e_feature = ''loan_amnt'', e_impact = 1 / 2, e_direction = ''increases''\<rparr>,
          \<lparr>e_feature = ''dti'', e_impact = - (1 / 5), e_direction = ''decreases''\<rparr>,
          \<lparr>e_feature = ''annual_inc'', e_impact = 0, e_direction = ''increases''\<rparr>]
   \<and> explain_prediction ex_model_two [Flt 15000, Flt 18] [''loan_amnt'', ''dti''] =
     Inr (1 / 5,
          [\<lparr>feature = ''dti'', impact = - (3 / 10), abs_impact = 3 / 10\<rparr>,
           \<lparr>feature = ''loan_amnt'', impact = 1 / 10, abs_impact = 1 / 10\<rparr>])"
  by (simp add: explain_prediction_def instance_shap_def ex_model_tiny_def ex_model_two_def
      ex_names_def format_explanations_def py_round4_def round_half_even_def Let_def)





subsection \<open>Feature encoder\<close>

text \<open>A loop whose body touches only the column it is run on and keeps the encoders.\<close>

lemma for_each_frame:
  assumes "for_each body xs st = Inr st'"
    and "\<And>x s s'. body x s = Inr s' \<Longrightarrow> snd s' = snd s \<and> (\<forall>c. c \<noteq> x \<longrightarrow> fst s' c = fst s c)"
  shows "snd st' = snd st \<and> (\<forall>c. c \<notin> set xs \<longrightarrow> fst st' c = fst st c)"
  using assms(1)
proof (induction xs arbitrary: st)
  case Nil
  then show ?case by simp
next
  case (Cons x xs)
  from Cons.prems obtain s1 where s1: "body x st = Inr s1" and rest: "for_each body xs s1 = Inr st'"
    by (auto split: sum.splits)
  from assms(2) [OF s1] Cons.IH [OF rest] show ?case by auto
qed

lemma transform_categorical_frame:
  assumes "transform_categorical df x s = Inr s'"
  shows "snd s' = snd s \<and> (\<forall>c. c \<noteq> x \<longrightarrow> fst s' c = fst s c)"
  using assms
  by (auto simp: transform_categorical_def
      split: option.splits column.splits if_splits enc_val.splits)

lemma transform_numeric_frame:
  assumes "transform_numeric x s = Inr s'"
  shows "snd s' = snd s \<and> (\<forall>c. c \<noteq> x \<longrightarrow> fst s' c = fst s c)"
  using assms
  by (auto simp: transform_numeric_def split: option.splits enc_val.splits)

lemma assign_cols_other:
  "c \<notin> set cols \<Longrightarrow> assign_cols cols vals e c = e c"
  by (induction cols vals e rule: assign_cols.induct) auto

lemma transform_scaler_frame:
  assumes "transform_scaler numeric_cols s = Inr s'"
  shows "snd s' = snd s \<and> (\<forall>c. c \<notin> set numeric_cols \<longrightarrow> fst s' c = fst s c)"
  using assms
  by (auto simp: transform_scaler_def Let_def assign_cols_other
      split: option.splits enc_val.splits if_splits)

text \<open>What the categorical step does to a column with a stored label encoder.\<close>

lemma transform_categorical_label:
  assumes "df col = Some (ObjCol ss)" and "snd s col = Some (LabelEncoder classes)"
  shows "transform_categorical df col s =
           Inr ((fst s)(col \<mapsto> map (\<lambda>x. if x \<in> set classes then IntC (label_code classes x)
                                        else IntC (- 1)) ss), snd s)"
  using assms by (simp add: transform_categorical_def)

lemma for_each_transform_categorical_col:
  assumes "for_each (transform_categorical df) xs s = Inr s'"
    and "df col = Some (ObjCol ss)" and "snd s col = Some (LabelEncoder classes)"
    and "col \<in> set xs \<or> fst s col = Some (map (\<lambda>x. if x \<in> set classes then IntC (label_code classes x)
                                        else IntC (- 1)) ss)"
  shows "fst s' col = Some (map (\<lambda>x. if x \<in> set classes then IntC (label_code classes x)
                                        else IntC (- 1)) ss)"
  using assms(1,3,4)
proof (induction xs arbitrary: s)
  case Nil
  then show ?case by simp
next
  case (Cons x xs)
  from Cons.prems(1) obtain s1 where s1: "transform_categorical df x s = Inr s1"
    and rest: "for_each (transform_categorical df) xs s1 = Inr s'"
    by (auto split: sum.splits)
  from transform_categorical_frame [OF s1] have keep: "snd s1 = snd s"
    and other: "\<forall>c. c \<noteq> x \<longrightarrow> fst s1 c = fst s c" by simp_all
  have "fst s1 col = Some (map (\<lambda>x. if x \<in> set classes then IntC (label_code classes x)
                                        else IntC (- 1)) ss) \<or> col \<in> set xs"
  proof (cases "x = col")
    case True
    with s1 transform_categorical_label [of df col ss s classes, OF assms(2) Cons.prems(2)]
    show ?thesis by auto
  next
    case False
    with Cons.prems(3) other show ?thesis by auto
  qed
  then show ?case
    using Cons.IH [OF rest] keep Cons.prems(2) by auto
qed

lemma label_code_nonneg: "0 \<le> label_code classes y"
  by (simp add: label_code_def)

text \<open>
  Claim C6. A value of a categorical column that is absent from the classes of the stored
  label encoder is encoded as \<open>-1\<close>: the step for that column does not raise, every
  code of a fitted class differs from \<open>-1\<close>, and whenever \<^const>\<open>encode_features\<close>
  returns in transform mode the cell of that value is \<open>-1\<close>.
\<close>

theorem unseen_category_sentinel:
  assumes "df col = Some (ObjCol ss)" and "encs col = Some (LabelEncoder classes)"
    and "i < length ss" and "ss ! i \<notin> set classes"
  shows "(\<exists>e'. transform_categorical df col (e, encs) = Inr (e', encs)
              \<and> map_option (\<lambda>cs. cs ! i) (e' col) = Some (IntC (- 1)))
       \<and> (\<forall>y \<in> set classes. label_code classes y \<noteq> - 1)
       \<and> (\<forall>cols out encs'. col \<in> set cols
             \<and> encode_features df cols False (Some encs) = Inr (out, encs')
             \<longrightarrow> map_option (\<lambda>cs. cs ! i) (out col) = Some (IntC (- 1)))"
proof (intro conjI allI impI ballI)
  show "\<exists>e'. transform_categorical df col (e, encs) = Inr (e', encs)
              \<and> map_option (\<lambda>cs. cs ! i) (e' col) = Some (IntC (- 1))"
    using assms by (simp add: transform_categorical_label)
  show "label_code classes y \<noteq> - 1" for y
    using label_code_nonneg [of classes y] by simp
next
  fix cols out encs'
  assume h: "col \<in> set cols \<and> encode_features df cols False (Some encs) = Inr (out, encs')"
  let ?V = "map (\<lambda>x. if x \<in> set classes then IntC (label_code classes x) else IntC (- 1)) ss"
  let ?nums = "filter (is_numeric df) cols"
  let ?cats = "filter (\<lambda>c. c \<notin> set ?nums) cols"
  from assms(1) have notnum: "\<not> is_numeric df col" by (simp add: is_numeric_def)
  with h have cat: "col \<in> set ?cats" and nn: "col \<notin> set ?nums" by simp_all
  from h obtain s1 s2 where
    s1: "for_each (transform_categorical df) ?cats
           (\<lambda>c. if c \<in> set cols then map_option raw_cells (df c) else None, encs) = Inr s1"
    and s2: "for_each transform_numeric ?nums s1 = Inr s2"
    and s3: "transform_scaler ?nums s2 = Inr (out, encs')"
    by (auto simp: encode_features_def Let_def split: if_splits sum.splits)
  from for_each_transform_categorical_col [OF s1 assms(1)] assms(2) cat
  have "fst s1 col = Some ?V" by simp
  moreover from for_each_frame [OF s2 transform_numeric_frame] nn
  have "fst s2 col = fst s1 col" by simp
  moreover from transform_scaler_frame [OF s3] nn have "out col = fst s2 col" by simp
  ultimately have "out col = Some ?V" by simp
  with assms(3,4) show "map_option (\<lambda>cs. cs ! i) (out col) = Some (IntC (- 1))" by simp
qed

theorem unseen_category_sentinel_witness:
  "ex_unseen_frame ''grade'' = Some (ObjCol [''C''])
   \<and> ex_label_encoders ''grade'' = Some (LabelEncoder [''A'', ''B''])
   \<and> ''C'' \<notin> set [''A'', ''B'']
   \<and> (\<exists>out encs'. encode_features ex_unseen_frame [''grade''] False (Some ex_label_encoders)
                     = Inr (out, encs')
         \<and> map_option (\<lambda>cs. cs ! 0) (out ''grade'') = Some (IntC (- 1)))"
proof -
  have h: "ex_unseen_frame ''grade'' = Some (ObjCol [''C''])"
    "ex_label_encoders ''grade'' = Some (LabelEncoder [''A'', ''B''])"
    "0 < length [''C'']" "[''C''] ! 0 \<notin> set [''A'', ''B'']"
    by (simp_all add: ex_unseen_frame_def ex_label_encoders_def)
  obtain out encs' where run:
    "encode_features ex_unseen_frame [''grade''] False (Some ex_label_encoders) = Inr (out, encs')"
    by (simp add: enc_defs ex_unseen_frame_def ex_label_encoders_def)
  note sentinel = unseen_category_sentinel [where df = ex_unseen_frame and col = "''grade''"
      and ss = "[''C'']" and encs = ex_label_encoders and classes = "[''A'', ''B'']" and i = 0,
      OF h, THEN conjunct2, THEN conjunct2, rule_format, of "[''grade'']" out encs']
  have cell: "map_option (\<lambda>cs. cs ! 0) (out ''grade'') = Some (IntC (- 1))"
    by (rule sentinel) (simp add: run)
  have unseen: "''C'' \<notin> set [''A'', ''B'']" by simp
  from h(1) h(2) unseen run cell show ?thesis by blast
qed

lemma for_each_transform_categorical_empty:
  assumes "\<forall>c \<in> set xs. \<exists>ss. df c = Some (ObjCol ss)"
  shows "for_each (transform_categorical df) xs (e, Map.empty) = Inr (e, Map.empty)"
  using assms by (induction xs) (auto simp: transform_categorical_def)

lemma fillna_idem: "fillna (Some r) (fillna (Some r) cs) = fillna (Some r) cs"
  by (simp add: fillna_def)

lemma for_each_transform_numeric_empty:
  assumes "\<forall>c \<in> set xs. e c \<noteq> None"
  shows "for_each transform_numeric xs (e, Map.empty) =
           Inr (\<lambda>c. if c \<in> set xs then map_option (fillna (Some 0)) (e c) else e c, Map.empty)"
  using assms
proof (induction xs arbitrary: e)
  case Nil
  then show ?case by simp
next
  case (Cons x xs)
  from Cons.prems obtain cs where cs: "e x = Some cs" by auto
  let ?e1 = "e(x \<mapsto> fillna (Some 0) cs)"
  have step: "transform_numeric x (e, Map.empty) = Inr (?e1, Map.empty)"
    by (simp add: transform_numeric_def cs)
  have rest: "\<forall>c \<in> set xs. ?e1 c \<noteq> None" using Cons.prems by simp
  have "for_each transform_numeric (x # xs) (e, Map.empty) =
          for_each transform_numeric xs (?e1, Map.empty)"
    by (simp only: for_each.simps step sum.case)
  also have "\<dots> =
          Inr (\<lambda>c. if c \<in> set xs then map_option (fillna (Some 0)) (?e1 c) else ?e1 c, Map.empty)"
    by (rule Cons.IH [OF rest])
  finally have "for_each transform_numeric (x # xs) (e, Map.empty) =
          Inr (\<lambda>c. if c \<in> set xs then map_option (fillna (Some 0)) (?e1 c) else ?e1 c, Map.empty)" .
  moreover have "(\<lambda>c. if c \<in> set xs then map_option (fillna (Some 0)) (?e1 c) else ?e1 c)
      = (\<lambda>c. if c \<in> set (x # xs) then map_option (fillna (Some 0)) (e c) else e c)"
    by (rule ext) (simp add: cs fillna_idem)
  ultimately show ?case by simp
qed

lemma transform_scaler_empty:
  "transform_scaler nums (e, Map.empty) = Inr (e, Map.empty)"
  by (simp add: transform_scaler_def)

lemma fillna_zero_raw:
  "fillna (Some 0) (raw_cells (ObjCol ss)) = map Str ss"
  "fillna (Some 0) (raw_cells (NumCol xs)) = map (\<lambda>x. case x of None \<Rightarrow> Flt 0 | Some r \<Rightarrow> Flt r) xs"
  by (auto simp: fillna_def raw_cells_def split: option.splits)

text \<open>
  Claim C8, as the code has it. In transform mode with no encoder state
  (\<^verbatim>\<open>encoders=None\<close>) nothing is raised: for every frame that has the requested columns,
  \<^const>\<open>encode_features\<close> returns the frame with its categorical columns unencoded, the
  missing numeric values replaced by \<open>0\<close> and no scaling, and the empty dictionary.
\<close>

theorem transform_without_state_uses_defaults:
  assumes "\<forall>c \<in> set cols. df c \<noteq> None"
  shows "\<exists>out. encode_features df cols False None = Inr (out, Map.empty)
           \<and> (\<forall>c \<in> set cols.
                 (\<forall>ss. df c = Some (ObjCol ss) \<longrightarrow> out c = Some (map Str ss))
               \<and> (\<forall>xs. df c = Some (NumCol xs) \<longrightarrow>
                     out c = Some (map (\<lambda>x. case x of None \<Rightarrow> Flt 0 | Some r \<Rightarrow> Flt r) xs)))"
proof -
  let ?e0 = "\<lambda>c. if c \<in> set cols then map_option raw_cells (df c) else None"
  let ?nums = "filter (is_numeric df) cols"
  let ?cats = "filter (\<lambda>c. c \<notin> set ?nums) cols"
  let ?out = "\<lambda>c. if c \<in> set ?nums then map_option (fillna (Some 0)) (?e0 c) else ?e0 c"
  have cats: "\<forall>c \<in> set ?cats. \<exists>ss. df c = Some (ObjCol ss)"
    using assms by (auto simp: is_numeric_def split: option.splits column.splits)
  have nums: "\<forall>c \<in> set ?nums. ?e0 c \<noteq> None"
    using assms by auto
  have present: "\<not> (\<exists>c \<in> set cols. df c = None)" using assms by simp
  have "encode_features df cols False None = Inr (?out, Map.empty)"
    by (simp only: encode_features_def Let_def present if_False option.case sum.case
        for_each_transform_categorical_empty [OF cats]
        for_each_transform_numeric_empty [OF nums] transform_scaler_empty)
  moreover have "out_c = Some (map Str ss)"
    if "c \<in> set cols" "df c = Some (ObjCol ss)" "out_c = ?out c" for c ss out_c
    using that by (simp add: is_numeric_def raw_cells_def)
  moreover have "out_c = Some (map (\<lambda>x. case x of None \<Rightarrow> Flt 0 | Some r \<Rightarrow> Flt r) xs)"
    if "c \<in> set cols" "df c = Some (NumCol xs)" "out_c = ?out c" for c xs out_c
    using that by (simp add: is_numeric_def fillna_zero_raw)
  ultimately show ?thesis by blast
qed

theorem transform_without_state_uses_defaults_witness:
  "\<exists>out. encode_features ex_frame [''grade'', ''x''] False None = Inr (out, Map.empty)
      \<and> out ''grade'' = Some [Str ''B'', Str ''A'', Str ''B'']
      \<and> out ''x'' = Some [Flt 1, Flt 0, Flt 3]"
proof -
  have h: "\<forall>c \<in> set [''grade'', ''x'']. ex_frame c \<noteq> None"
    by (simp add: ex_frame_def)
  from transform_without_state_uses_defaults [OF h]
  obtain out where out: "encode_features ex_frame [''grade'', ''x''] False None = Inr (out, Map.empty)"
    and cols: "\<forall>c \<in> set [''grade'', ''x''].
                 (\<forall>ss. ex_frame c = Some (ObjCol ss) \<longrightarrow> out c = Some (map Str ss))
               \<and> (\<forall>xs. ex_frame c = Some (NumCol xs) \<longrightarrow>
                     out c = Some (map (\<lambda>x. case x of None \<Rightarrow> Flt 0 | Some r \<Rightarrow> Flt r) xs))"
    by (elim exE conjE)
  from cols have "out ''grade'' = Some [Str ''B'', Str ''A'', Str ''B'']"
    and "out ''x'' = Some [Flt 1, Flt 0, Flt 3]"
    by (simp_all add: ex_frame_def)
  with out show ?thesis by blast
qed

text \<open>
  The claim as stated (an error instead of an encoded vector) fails on the example frame.
\<close>

theorem transform_without_state_counterexample:
  "encode_features ex_frame [''grade'', ''x''] False None =
     Inr ([''grade'' \<mapsto> [Str ''B'', Str ''A'', Str ''B''], ''x'' \<mapsto> [Flt 1, Flt 0, Flt 3]],
          Map.empty)"
  by (auto simp: enc_defs ex_frame_def fun_eq_iff)

text \<open>
  \<^const>\<open>prepare_features\<close> gives a feature the request lacks the value \<open>0.0\<close> before
  encoding, so the request is encoded exactly as one that sends \<open>0\<close>.
\<close>

lemma prepare_features_missing_is_zero:
  assumes "input_dict feat = None"
  shows "prepare_features names encs input_dict
         = prepare_features names encs (input_dict(feat \<mapsto> NumV 0))"
proof -
  have "request_frame names input_dict = request_frame names (input_dict(feat \<mapsto> NumV 0))"
    using assms by (auto simp: request_frame_def fun_eq_iff)
  then show ?thesis by (simp add: prepare_features_def)
qed

text \<open>
  Claim C7 against the code: the stored median is not what a missing feature gets. With a
  stored median of 10000 (mean 10000, scale 5000), a request without \<^verbatim>\<open>loan_amnt\<close> is
  encoded as \<open>(0 - 10000) / 5000 = -2\<close>; the encoder itself, given the missing value as
  NaN, fills the stored median and yields \<open>0\<close>.
\<close>

theorem missing_feature_filled_with_zero:
  "prepare_features [''loan_amnt''] (Some ex_amount_encoders) Map.empty
     = Inr [''loan_amnt'' \<mapsto> [Flt (- 2)]]
   \<and> encode_features [''loan_amnt'' \<mapsto> NumCol [None]] [''loan_amnt''] False
        (Some ex_amount_encoders)
     = Inr ([''loan_amnt'' \<mapsto> [Flt 0]], ex_amount_encoders)"
  by (auto simp: prepare_features_def request_frame_def enc_defs ex_amount_encoders_def fun_eq_iff)

text \<open>
  Claim C4 against the code. Fitting a frame whose categorical column is named
  \<^verbatim>\<open>scaler\<close> stores its label encoder under the key \<^verbatim>\<open>scaler\<close>, which the scaler then
  overwrites; transforming the first row of the fitting data with the returned state raises
  \<^verbatim>\<open>AttributeError\<close> instead of reproducing the row \<open>[1, -1]\<close> of the fit.
\<close>

theorem parity_broken_by_key_clash:
  "encode_features ex_clash_frame [''scaler'', ''x''] True None
     = Inr ([''scaler'' \<mapsto> [IntC 1, IntC 0], ''x'' \<mapsto> [Flt (- 1), Flt 1]],
            [''x_median'' \<mapsto> Median (Some 2), ''scaler'' \<mapsto> StandardScaler [Some (2, 2)]])
   \<and> encode_features (iloc ex_clash_frame 0) [''scaler'', ''x''] False
        (Some [''x_median'' \<mapsto> Median (Some 2), ''scaler'' \<mapsto> StandardScaler [Some (2, 2)]])
     = Inl AttributeError"
  by (auto simp: enc_defs ex_clash_frame_def iloc_def fun_eq_iff)

subsection \<open>Encoding parity when the dictionary keys do not clash\<close>

lemma assign_cols_upds: "assign_cols cols vals e = e(cols [\<mapsto>] vals)"
proof (induction cols arbitrary: vals e)
  case Nil
  then show ?case by simp
next
  case (Cons c cols)
  then show ?case by (cases vals) (simp_all add: fun_upd_def)
qed

lemma upds_map_apply:
  "(m(xs [\<mapsto>] map F xs)) x = (if x \<in> set xs then Some (F x) else m x)"
  by (induction xs arbitrary: m) simp_all

lemma upds_key_apply:
  assumes "inj_on g (set xs)" and "x \<in> set xs"
  shows "(k(map g xs [\<mapsto>] map h xs)) (g x) = Some (h x)"
  using assms
proof (induction xs arbitrary: k)
  case Nil
  then show ?case by simp
next
  case (Cons a xs)
  show ?case
  proof (cases "x \<in> set xs")
    case True
    with Cons show ?thesis by simp
  next
    case False
    with Cons.prems have xa: "x = a" by simp
    from Cons.prems(1) False xa have "g a \<notin> set (map g xs)" by auto
    then show ?thesis by (simp add: xa)
  qed
qed

text \<open>A loop whose body replaces the column it is run on, reading only that column, and
  stores one entry in the dictionary.\<close>

lemma for_each_updates:
  assumes "distinct xs" and "\<forall>x \<in> set xs. e x = ini x"
    and "\<And>x e' k'. x \<in> set xs \<Longrightarrow> e' x = ini x \<Longrightarrow>
           body x (e', k') = Inr (e'(x \<mapsto> F x), k'(G x \<mapsto> H x))"
  shows "for_each body xs (e, k) = Inr (e(xs [\<mapsto>] map F xs), k(map G xs [\<mapsto>] map H xs))"
  using assms
proof (induction xs arbitrary: e k)
  case Nil
  then show ?case by simp
next
  case (Cons a xs)
  have step: "body a (e, k) = Inr (e(a \<mapsto> F a), k(G a \<mapsto> H a))"
    by (rule Cons.prems(3)) (simp_all add: Cons.prems(2))
  have rest: "for_each body xs (e(a \<mapsto> F a), k(G a \<mapsto> H a))
      = Inr ((e(a \<mapsto> F a))(xs [\<mapsto>] map F xs), (k(G a \<mapsto> H a))(map G xs [\<mapsto>] map H xs))"
  proof (rule Cons.IH)
    show "distinct xs" using Cons.prems(1) by simp
    show "\<forall>x \<in> set xs. (e(a \<mapsto> F a)) x = ini x" using Cons.prems(1,2) by auto
    show "body x (e', k') = Inr (e'(x \<mapsto> F x), k'(G x \<mapsto> H x))"
      if "x \<in> set xs" "e' x = ini x" for x e' k'
      by (rule Cons.prems(3)) (simp_all add: that)
  qed
  show ?case by (simp add: step rest)
qed

text \<open>The same for a body that keeps the dictionary it is given.\<close>

lemma for_each_updates_keep:
  assumes "distinct xs" and "\<forall>x \<in> set xs. e x = ini x"
    and "\<And>x e'. x \<in> set xs \<Longrightarrow> e' x = ini x \<Longrightarrow> body x (e', k) = Inr (e'(x \<mapsto> F x), k)"
  shows "for_each body xs (e, k) = Inr (e(xs [\<mapsto>] map F xs), k)"
  using assms
proof (induction xs arbitrary: e)
  case Nil
  then show ?case by simp
next
  case (Cons a xs)
  have step: "body a (e, k) = Inr (e(a \<mapsto> F a), k)"
    by (rule Cons.prems(3)) (simp_all add: Cons.prems(2))
  have rest: "for_each body xs (e(a \<mapsto> F a), k) = Inr ((e(a \<mapsto> F a))(xs [\<mapsto>] map F xs), k)"
  proof (rule Cons.IH)
    show "distinct xs" using Cons.prems(1) by simp
    show "\<forall>x \<in> set xs. (e(a \<mapsto> F a)) x = ini x" using Cons.prems(1,2) by auto
    show "body x (e', k) = Inr (e'(x \<mapsto> F x), k)" if "x \<in> set xs" "e' x = ini x" for x e'
      by (rule Cons.prems(3)) (simp_all add: that)
  qed
  show ?case by (simp add: step rest)
qed

lemma map2_maps: "map2 f (map g xs) (map h xs) = map (\<lambda>x. f (g x) (h x)) xs"
  by (induction xs) simp_all

lemma median_key_inj: "inj_on (\<lambda>m. m @ ''_median'') A"
  by (rule inj_onI) simp

lemma scaler_not_median_key: "m @ ''_median'' \<noteq> ''scaler''"
proof
  assume "m @ ''_median'' = ''scaler''"
  then have "rev (m @ ''_median'') = rev ''scaler''" by simp
  then show False by simp
qed

lemma set_label_classes: "set (label_classes ss) = set ss"
  by (simp add: label_classes_def)

lemma fit_categorical_step:
  assumes "df c = Some (ObjCol ss)"
  shows "fit_categorical df c (e, k) =
           Inr (e(c \<mapsto> map (\<lambda>x. IntC (label_code (label_classes ss) x)) ss),
                k(c \<mapsto> LabelEncoder (label_classes ss)))"
  using assms by (simp add: fit_categorical_def Let_def)

lemma fit_numeric_step:
  assumes "e m = Some cs"
  shows "fit_numeric m (e, k) =
           Inr (e(m \<mapsto> fillna (median cs) cs), k(m @ ''_median'' \<mapsto> Median (median cs)))"
  using assms by (simp add: fit_numeric_def Let_def)

lemma transform_categorical_seen:
  assumes "df c = Some (ObjCol [x])" and "k c = Some (LabelEncoder classes)" and "x \<in> set classes"
  shows "transform_categorical df c (e, k) = Inr (e(c \<mapsto> [IntC (label_code classes x)]), k)"
  using assms by (simp add: transform_categorical_def)

lemma transform_numeric_stored:
  assumes "e m = Some cs" and "k (m @ ''_median'') = Some (Median v)"
  shows "transform_numeric m (e, k) = Inr (e(m \<mapsto> fillna v cs), k)"
  using assms by (simp add: transform_numeric_def)

lemma fit_scaler_block:
  assumes "numeric_block nums e = block"
  shows "fit_scaler nums (e, k) =
           (if empty_block block then Inl ValueError
            else Inr (e(nums [\<mapsto>] map2 scaler_transform_col (map scaler_fit_col block) block),
                      k(''scaler'' \<mapsto> StandardScaler (map scaler_fit_col block))))"
  using assms by (simp add: fit_scaler_def Let_def assign_cols_upds)

lemma transform_scaler_block:
  assumes "numeric_block nums e = block" and "k ''scaler'' = Some (StandardScaler params)"
    and "\<not> empty_block block" and "length params = length block"
  shows "transform_scaler nums (e, k) =
           Inr (e(nums [\<mapsto>] map2 scaler_transform_col params block), k)"
  using assms by (simp add: transform_scaler_def Let_def assign_cols_upds)

lemma fillna_nth: "i < length cs \<Longrightarrow> fillna v [cs ! i] = [fillna v cs ! i]"
  by (simp add: fillna_def)

lemma scaler_transform_col_nth:
  "i < length cs \<Longrightarrow> scaler_transform_col p [cs ! i] = [scaler_transform_col p cs ! i]"
  by (simp add: scaler_transform_col_def)

lemma length_fillna [simp]: "length (fillna v cs) = length cs"
  by (simp add: fillna_def)

lemma length_scaler_transform_col [simp]: "length (scaler_transform_col p cs) = length cs"
  by (simp add: scaler_transform_col_def)

lemma length_raw_cells:
  "length (raw_cells (NumCol xs)) = length xs" "length (raw_cells (ObjCol ss)) = length ss"
  by (simp_all add: raw_cells_def)

lemma raw_cells_nth:
  "i < length xs \<Longrightarrow> raw_cells (NumCol [xs ! i]) = [raw_cells (NumCol xs) ! i]"
  "i < length ss \<Longrightarrow> raw_cells (ObjCol [ss ! i]) = [raw_cells (ObjCol ss) ! i]"
  by (simp_all add: raw_cells_def)

text \<open>
  The parity of fitting and transforming holds for every frame with distinct columns of one length
  in which no categorical column is named \<^verbatim>\<open>scaler\<close> or \<^verbatim>\<open>m_median\<close> for a numeric column
  \<open>m\<close>: transforming row \<open>i\<close> of the fitting data with the fitted state returns row
  \<open>i\<close> of the fit, and the state unchanged. The clash of keys in the example above is the
  only way the code loses it.
\<close>

theorem encode_parity_without_key_clash:
  fixes df :: dataframe and cols :: "string list"
  assumes dist: "distinct cols"
    and rows: "\<forall>c \<in> set cols. (\<exists>xs. df c = Some (NumCol xs) \<and> length xs = n)
                              \<or> (\<exists>ss. df c = Some (ObjCol ss) \<and> length ss = n)"
    and i: "i < n"
    and noclash: "\<forall>c \<in> set cols. \<not> is_numeric df c \<longrightarrow>
                    c \<noteq> ''scaler'' \<and> (\<forall>m \<in> set cols. is_numeric df m \<longrightarrow> c \<noteq> m @ ''_median'')"
    and fit: "encode_features df cols True None = Inr (out, encs)"
  shows "\<exists>out'. encode_features (iloc df i) cols False (Some encs) = Inr (out', encs)
           \<and> (\<forall>c \<in> set cols. \<exists>cs. out c = Some cs \<and> i < length cs \<and> out' c = Some [cs ! i])
           \<and> row_of out' cols 0 = row_of out cols i"
proof -
  define nums where "nums = filter (is_numeric df) cols"
  define cats where "cats = filter (\<lambda>c. c \<notin> set nums) cols"
  define e0 where "e0 = (\<lambda>c. if c \<in> set cols then map_option raw_cells (df c) else None)"
  define raw where "raw = (\<lambda>c. case df c of Some col \<Rightarrow> raw_cells col | None \<Rightarrow> [])"
  define strs where "strs = (\<lambda>c. case df c of Some (ObjCol ss) \<Rightarrow> ss | _ \<Rightarrow> [])"
  define Fc where "Fc = (\<lambda>c. map (\<lambda>x. IntC (label_code (label_classes (strs c)) x)) (strs c))"
  define Hc where "Hc = (\<lambda>c. LabelEncoder (label_classes (strs c)))"
  define Fn where "Fn = (\<lambda>m. fillna (median (raw m)) (raw m))"
  define Hn where "Hn = (\<lambda>m. Median (median (raw m)))"
  define Ps where "Ps = (\<lambda>m. scaler_fit_col (Fn m))"
  define Fs where "Fs = (\<lambda>m. scaler_transform_col (Ps m) (Fn m))"
  define med where "med = (\<lambda>m :: string. m @ ''_median'')"

  have present: "\<not> (\<exists>c \<in> set cols. df c = None)" using rows by auto
  have dnums: "distinct nums" and dcats: "distinct cats"
    using dist by (simp_all add: nums_def cats_def)
  have split: "set cats \<inter> set nums = {}" "set cols = set cats \<union> set nums"
    by (auto simp: cats_def nums_def)
  have cats_obj: "df c = Some (ObjCol (strs c)) \<and> length (strs c) = n" if "c \<in> set cats" for c
    using that rows by (auto simp: cats_def nums_def is_numeric_def strs_def)
  have nums_len: "length (raw m) = n \<and> e0 m = Some (raw m)" if "m \<in> set nums" for m
    using that rows by (auto simp: nums_def e0_def raw_def length_raw_cells)
  have cats_key: "c \<noteq> ''scaler'' \<and> c \<notin> set (map med nums)" if "c \<in> set cats" for c
    using that noclash by (auto simp: cats_def nums_def med_def)

  text \<open>Fitting.\<close>
  have fit1: "for_each (fit_categorical df) cats (e0, Map.empty)
                = Inr (e0(cats [\<mapsto>] map Fc cats), Map.empty(map (\<lambda>c. c) cats [\<mapsto>] map Hc cats))"
  proof (rule for_each_updates [where ini = e0])
    show "distinct cats" by (rule dcats)
    show "\<forall>x \<in> set cats. e0 x = e0 x" by simp
    show "fit_categorical df x (e', k') = Inr (e'(x \<mapsto> Fc x), k'(x \<mapsto> Hc x))"
      if "x \<in> set cats" for x e' k'
      using cats_obj [OF that] by (simp add: fit_categorical_step Fc_def Hc_def)
  qed
  define e1 where "e1 = e0(cats [\<mapsto>] map Fc cats)"
  define k1 where "k1 = Map.empty(cats [\<mapsto>] map Hc cats)"
  have e1_nums: "e1 m = Some (raw m)" if "m \<in> set nums" for m
    using that split(1) nums_len [OF that] by (auto simp: e1_def upds_map_apply)
  have fit2: "for_each fit_numeric nums (e1, k1)
                = Inr (e1(nums [\<mapsto>] map Fn nums), k1(map med nums [\<mapsto>] map Hn nums))"
  proof (rule for_each_updates [where ini = "\<lambda>m. Some (raw m)"])
    show "distinct nums" by (rule dnums)
    show "\<forall>x \<in> set nums. e1 x = Some (raw x)" using e1_nums by simp
    show "fit_numeric x (e', k') = Inr (e'(x \<mapsto> Fn x), k'(med x \<mapsto> Hn x))"
      if "e' x = Some (raw x)" for x e' k'
      using that by (simp add: fit_numeric_step Fn_def Hn_def med_def)
  qed
  define e2 where "e2 = e1(nums [\<mapsto>] map Fn nums)"
  define k2 where "k2 = k1(map med nums [\<mapsto>] map Hn nums)"
  have block: "numeric_block nums e2 = map Fn nums"
    unfolding numeric_block_def by (rule map_cong [OF refl]) (simp add: e2_def upds_map_apply)
  have fit3: "fit_scaler nums (e2, k2) =
           (if empty_block (map Fn nums) then Inl ValueError
            else Inr (e2(nums [\<mapsto>] map Fs nums), k2(''scaler'' \<mapsto> StandardScaler (map Ps nums))))"
    by (simp add: fit_scaler_block [OF block] map2_maps Fs_def Ps_def comp_def)
  have fit_all: "encode_features df cols True None = fit_scaler nums (e2, k2)"
    using fit1 fit2
    by (simp only: encode_features_def Let_def present if_False if_True option.case sum.case
        nums_def [symmetric] cats_def [symmetric] e0_def [symmetric] e1_def [symmetric]
        k1_def [symmetric] e2_def [symmetric] k2_def [symmetric] map_ident)
  from fit fit_all fit3 have nonempty: "\<not> empty_block (map Fn nums)"
    and out: "out = e2(nums [\<mapsto>] map Fs nums)"
    and encs: "encs = k2(''scaler'' \<mapsto> StandardScaler (map Ps nums))"
    by (auto split: if_splits)
  have nums_ne: "nums \<noteq> []" using nonempty by (auto simp: empty_block_def)
  have out_cat: "out c = Some (Fc c)" if "c \<in> set cats" for c
    using that split(1) by (auto simp: out e2_def e1_def upds_map_apply)
  have out_num: "out m = Some (Fs m)" if "m \<in> set nums" for m
    using that by (simp add: out upds_map_apply)
  have encs_cat: "encs c = Some (LabelEncoder (label_classes (strs c)))" if "c \<in> set cats" for c
    using that cats_key [OF that] by (simp add: encs k2_def k1_def upds_map_apply Hc_def)
  have encs_med: "encs (m @ ''_median'') = Some (Median (median (raw m)))"
    if "m \<in> set nums" for m
  proof -
    have "k2 (med m) = Some (Hn m)"
      unfolding k2_def med_def by (rule upds_key_apply [OF median_key_inj that])
    then show ?thesis by (simp add: encs med_def Hn_def scaler_not_median_key)
  qed
  have encs_scaler: "encs ''scaler'' = Some (StandardScaler (map Ps nums))"
    by (simp add: encs)

  text \<open>Transforming row \<open>i\<close>.\<close>
  define df' where "df' = iloc df i"
  have num_same: "is_numeric df' = is_numeric df"
    by (auto simp: df'_def iloc_def is_numeric_def fun_eq_iff split: option.splits column.splits)
  have present': "\<not> (\<exists>c \<in> set cols. df' c = None)"
    using rows by (auto simp: df'_def iloc_def)
  define e0' where "e0' = (\<lambda>c. if c \<in> set cols then map_option raw_cells (df' c) else None)"
  have e0'_col: "e0' c = Some [raw c ! i]" if "c \<in> set cols" for c
    using that rows i by (auto simp: e0'_def df'_def iloc_def raw_def raw_cells_nth)
  have cats_obj': "df' c = Some (ObjCol [strs c ! i])" if "c \<in> set cats" for c
    using cats_obj [OF that] by (simp add: df'_def iloc_def)
  have tr1: "for_each (transform_categorical df') cats (e0', encs)
               = Inr (e0'(cats [\<mapsto>] map (\<lambda>c. [Fc c ! i]) cats), encs)"
  proof (rule for_each_updates_keep [where ini = e0'])
    show "distinct cats" by (rule dcats)
    show "\<forall>x \<in> set cats. e0' x = e0' x" by simp
    show "transform_categorical df' x (e', encs) = Inr (e'(x \<mapsto> [Fc x ! i]), encs)"
      if "x \<in> set cats" for x e'
    proof -
      from cats_obj [OF that] i have len: "i < length (strs x)" by simp
      then have seen: "strs x ! i \<in> set (label_classes (strs x))"
        by (simp add: set_label_classes)
      from len have "Fc x ! i = IntC (label_code (label_classes (strs x)) (strs x ! i))"
        by (simp add: Fc_def)
      with transform_categorical_seen [where df = df' and c = x and k = encs and e = e',
          OF cats_obj' [OF that] encs_cat [OF that] seen]
      show ?thesis by simp
    qed
  qed
  define e1' where "e1' = e0'(cats [\<mapsto>] map (\<lambda>c. [Fc c ! i]) cats)"
  have e1'_nums: "e1' m = Some [raw m ! i]" if "m \<in> set nums" for m
    using that split e0'_col [of m] by (auto simp: e1'_def upds_map_apply)
  have tr2: "for_each transform_numeric nums (e1', encs)
               = Inr (e1'(nums [\<mapsto>] map (\<lambda>m. [Fn m ! i]) nums), encs)"
  proof (rule for_each_updates_keep [where ini = "\<lambda>m. Some [raw m ! i]"])
    show "distinct nums" by (rule dnums)
    show "\<forall>x \<in> set nums. e1' x = Some [raw x ! i]" using e1'_nums by simp
    show "transform_numeric x (e', encs) = Inr (e'(x \<mapsto> [Fn x ! i]), encs)"
      if "x \<in> set nums" "e' x = Some [raw x ! i]" for x e'
    proof -
      from nums_len [OF that(1)] i have "i < length (raw x)" by simp
      then have "fillna (median (raw x)) [raw x ! i] = [Fn x ! i]"
        by (simp add: fillna_nth Fn_def)
      with transform_numeric_stored [where e = e' and m = x and k = encs,
          OF that(2) encs_med [OF that(1)]]
      show ?thesis by simp
    qed
  qed
  define e2' where "e2' = e1'(nums [\<mapsto>] map (\<lambda>m. [Fn m ! i]) nums)"
  have block': "numeric_block nums e2' = map (\<lambda>m. [Fn m ! i]) nums"
    unfolding numeric_block_def by (rule map_cong [OF refl]) (simp add: e2'_def upds_map_apply)
  have nonempty': "\<not> empty_block (map (\<lambda>m. [Fn m ! i]) nums)"
    using nums_ne by (simp add: empty_block_def hd_map)
  have scaled: "map2 scaler_transform_col (map Ps nums) (map (\<lambda>m. [Fn m ! i]) nums)
                  = map (\<lambda>m. [Fs m ! i]) nums"
    unfolding map2_maps
  proof (rule map_cong [OF refl])
    fix m assume "m \<in> set nums"
    from nums_len [OF this] i have "i < length (Fn m)" by (simp add: Fn_def)
    then show "scaler_transform_col (Ps m) [Fn m ! i] = [Fs m ! i]"
      by (simp add: scaler_transform_col_nth Fs_def)
  qed
  have tr3: "transform_scaler nums (e2', encs) = Inr (e2'(nums [\<mapsto>] map (\<lambda>m. [Fs m ! i]) nums), encs)"
    using transform_scaler_block [where nums = nums and e = e2' and k = encs
        and params = "map Ps nums", OF block' encs_scaler nonempty'] scaled
    by simp
  define out' where "out' = e2'(nums [\<mapsto>] map (\<lambda>m. [Fs m ! i]) nums)"
  have tr_all: "encode_features df' cols False (Some encs) = Inr (out', encs)"
    using tr1 tr2 tr3
    by (simp only: encode_features_def Let_def present' if_False option.case sum.case num_same
        nums_def [symmetric] cats_def [symmetric] e0'_def [symmetric] e1'_def [symmetric]
        e2'_def [symmetric] out'_def [symmetric])

  text \<open>Column by column, the transformed row is row \<open>i\<close> of the fit.\<close>
  have col: "\<exists>cs. out c = Some cs \<and> i < length cs \<and> out' c = Some [cs ! i]"
    if c: "c \<in> set cols" for c
  proof (cases "c \<in> set nums")
    case True
    from nums_len [OF True] i have "i < length (Fs c)" by (simp add: Fs_def Fn_def)
    moreover have "out' c = Some [Fs c ! i]" using True by (simp add: out'_def upds_map_apply)
    ultimately show ?thesis using out_num [OF True] by simp
  next
    case False
    with c split(2) have cat: "c \<in> set cats" by auto
    from cats_obj [OF cat] i have "i < length (Fc c)" by (simp add: Fc_def)
    moreover have "out' c = Some [Fc c ! i]"
      using False cat by (simp add: out'_def e2'_def e1'_def upds_map_apply)
    ultimately show ?thesis using out_cat [OF cat] by simp
  qed
  have "row_of out' cols 0 = row_of out cols i"
    unfolding row_of_def
  proof (rule map_cong [OF refl])
    fix c assume "c \<in> set cols"
    from col [OF this] show "(case out' c of Some cs \<Rightarrow> cs ! 0 | None \<Rightarrow> NaN)
                           = (case out c of Some cs \<Rightarrow> cs ! i | None \<Rightarrow> NaN)"
      by auto
  qed
  with tr_all col show ?thesis
    unfolding df'_def by blast
qed

text \<open>The parity on the example frame, for its second row (the one with a missing value).\<close>

lemma encode_parity_example:
  "\<exists>out encs out'.
      encode_features ex_frame [''grade'', ''x''] True None = Inr (out, encs)
    \<and> encode_features (iloc ex_frame 1) [''grade'', ''x''] False (Some encs) = Inr (out', encs)
    \<and> row_of out' [''grade'', ''x''] 0 = row_of out [''grade'', ''x''] 1"
proof -
  obtain out encs where fit: "encode_features ex_frame [''grade'', ''x''] True None = Inr (out, encs)"
    by (simp add: enc_defs ex_frame_def)
  have rows: "\<forall>c \<in> set [''grade'', ''x''].
                (\<exists>xs. ex_frame c = Some (NumCol xs) \<and> length xs = 3)
              \<or> (\<exists>ss. ex_frame c = Some (ObjCol ss) \<and> length ss = 3)"
    by (simp add: ex_frame_def)
  have noclash: "\<forall>c \<in> set [''grade'', ''x'']. \<not> is_numeric ex_frame c \<longrightarrow>
      c \<noteq> ''scaler'' \<and> (\<forall>m \<in> set [''grade'', ''x'']. is_numeric ex_frame m \<longrightarrow> c \<noteq> m @ ''_median'')"
    by (simp add: ex_frame_def is_numeric_def)
  from encode_parity_without_key_clash [OF _ rows _ noclash fit, of 1] fit
  show ?thesis by auto
qed

end
